theory Spec2Isabelle
  imports Main "HOL-Library.Word"
begin

unbundle bit_operations_syntax

section \<open>Machine types and faults\<close>

text \<open>
  The converter works on fixed-width unsigned integers (\<open>u8\<close>, \<open>u16\<close>, \<open>u32\<close>,
  \<open>u64\<close>) and on \<open>i64\<close>, which is the same 64 bits read in two's complement
  (\<open>sint\<close>).  A \<open>std::vector<u8>\<close> is a list of bytes.  Arithmetic on words
  wraps around, as the C++ arithmetic on unsigned types does.
\<close>

type_synonym u8 = "8 word"
type_synonym u16 = "16 word"
type_synonym u32 = "32 word"
type_synonym u64 = "64 word"
type_synonym i64 = "64 word"

text \<open>
  The source indexes its buffers without checks in several places.  Where C++ leaves
  the behaviour undefined (a read or a write outside a vector, a division by zero, a
  shift by the width of the type or more) the model returns a fault instead of a value.
\<close>

datatype fault = DivisionByZero | ShiftTooWide | ReadOutOfBounds | WriteOutOfBounds

section \<open>Tegra block linear swizzle\<close>

text \<open>\<open>DIV_ROUND_UP\<close> (main.cpp, line 95): \<open>(n + d - 1) / d\<close> in \<open>u32\<close>.\<close>

definition DIV_ROUND_UP :: "u32 \<Rightarrow> u32 \<Rightarrow> fault + u32" where
  "DIV_ROUND_UP n d = (if d = 0 then Inl DivisionByZero else Inr ((n + d - 1) div d))"

text \<open>\<open>round_up\<close> (line 99): \<open>((x - 1) | (y - 1)) + 1\<close> in \<open>u32\<close>.\<close>

definition round_up :: "u32 \<Rightarrow> u32 \<Rightarrow> u32" where
  "round_up x y = ((x - 1) OR (y - 1)) + 1"

text \<open>
  \<open>getAddrBlockLinear\<close> (lines 103 to 118).  The two divisions by
  \<open>8 * block_height\<close> are the only ones whose divisor is not a constant.
\<close>

definition getAddrBlockLinear :: "u32 \<Rightarrow> u32 \<Rightarrow> u32 \<Rightarrow> u32 \<Rightarrow> u32 \<Rightarrow> u32 \<Rightarrow> fault + u32" where
  "getAddrBlockLinear x y image_width bytes_per_pixel base_address block_height =
     (if 8 * block_height = 0 then Inl DivisionByZero
      else
        let image_width_in_gobs = (image_width * bytes_per_pixel + 64 - 1) div 64;
            GOB_address = base_address
              + (y div (8 * block_height)) * 512 * block_height * image_width_in_gobs
              + ((x * bytes_per_pixel) div 64) * 512 * block_height
              + ((y mod (8 * block_height)) div 8) * 512;
            x' = x * bytes_per_pixel;
            Address = GOB_address + ((x' mod 64) div 32) * 256 + ((y mod 8) div 2) * 64
              + ((x' mod 32) div 16) * 32 + (y mod 2) * 16 + (x' mod 16)
        in Inr Address)"

text \<open>
  The values \<open>deswizzle\<close> fixes before its loops (lines 124 to 137): the grid
  width and height in blocks, the bytes per block, the tile mode, the pitch, the
  surface size, the block height in GOBs, and the payload.
\<close>

record deswizzle_env =
  env_width :: u32
  env_height :: u32
  env_bpp :: u32
  env_tileMode :: u32
  env_pitch :: u32
  env_surfSize :: u32
  env_block_height :: u32
  env_data :: "u8 list"

text \<open>The source offset \<open>pos\<close> of the block at \<open>(x, y)\<close> (lines 145 to 149).\<close>

definition source_pos :: "deswizzle_env \<Rightarrow> u32 \<Rightarrow> u32 \<Rightarrow> fault + u32" where
  "source_pos e x y =
     (if env_tileMode e = 0 then Inr (y * env_pitch e + x * env_bpp e)
      else getAddrBlockLinear x y (env_width e) (env_bpp e) 0 (env_block_height e))"

text \<open>
  \<open>std::memcpy(&dst[d], &src[s], n)\<close>: a fault when the \<open>n\<close> bytes do not lie
  inside the source or inside the destination.
\<close>

definition memcpy_block :: "u8 list \<Rightarrow> nat \<Rightarrow> u8 list \<Rightarrow> nat \<Rightarrow> nat \<Rightarrow> fault + u8 list" where
  "memcpy_block dst d src s n =
     (if length src < s + n then Inl ReadOutOfBounds
      else if length dst < d + n then Inl WriteOutOfBounds
      else Inr (take d dst @ take n (drop s src) @ drop (d + n) dst))"

text \<open>
  The body of the inner loop (lines 143 to 155).  The guard compares \<open>pos + bpp\<close>
  (in \<open>u32\<close>) with \<open>surfSize\<close>, and \<open>pos_ + bpp\<close> (in \<open>u32\<close>, then widened to
  \<open>size_t\<close>) with \<open>data.size()\<close>; the copy reads \<open>data\<close> at \<open>pos\<close> and writes
  \<open>result\<close> at \<open>pos_\<close>.  The source's \<open>pos_\<close> is \<open>dst_pos\<close> here.
\<close>

definition deswizzle_block :: "deswizzle_env \<Rightarrow> u32 \<Rightarrow> u32 \<Rightarrow> u8 list \<Rightarrow> fault + u8 list" where
  "deswizzle_block e x y result =
     (case source_pos e x y of
        Inl f \<Rightarrow> Inl f
      | Inr pos \<Rightarrow>
          let dst_pos = (y * env_width e + x) * env_bpp e in
          if pos + env_bpp e \<le> env_surfSize e \<and> unat (dst_pos + env_bpp e) \<le> length (env_data e)
          then memcpy_block result (unat dst_pos) (env_data e) (unat pos) (unat (env_bpp e))
          else Inr result)"

text \<open>The inner loop, \<open>for (u32 x = ...; x < width; x++)\<close>, from a given \<open>x\<close>.\<close>

function deswizzle_row :: "deswizzle_env \<Rightarrow> u32 \<Rightarrow> u32 \<Rightarrow> u8 list \<Rightarrow> fault + u8 list" where
  "deswizzle_row e y x result =
     (if x < env_width e
      then (case deswizzle_block e x y result of
              Inl f \<Rightarrow> Inl f
            | Inr result' \<Rightarrow> deswizzle_row e y (x + 1) result')
      else Inr result)"
  by pat_completeness auto
termination
proof (relation "measure (\<lambda>(e, y, x, result). unat (env_width e) - unat x)")
  show "wf (measure (\<lambda>(e, y, x, result). unat (env_width e) - unat x))"
    by simp
next
  fix e :: deswizzle_env and y x :: u32 and result x2 :: "u8 list"
  assume lt: "x < env_width e"
  then have "unat x + unat (1 :: u32) < 2 ^ LENGTH(32)"
    using unsigned_less [of "env_width e", where ?'a = nat] by (simp add: word_less_nat_alt)
  then have "unat (x + 1) = Suc (unat x)"
    by (simp add: unat_add_lem [THEN iffD1])
  with lt show "((e, y, x + 1, x2), (e, y, x, result))
      \<in> measure (\<lambda>(e, y, x, result). unat (env_width e) - unat x)"
    by (simp add: word_less_nat_alt)
qed

text \<open>The outer loop, \<open>for (u32 y = ...; y < height; y++)\<close>, from a given \<open>y\<close>.\<close>

function deswizzle_rows :: "deswizzle_env \<Rightarrow> u32 \<Rightarrow> u8 list \<Rightarrow> fault + u8 list" where
  "deswizzle_rows e y result =
     (if y < env_height e
      then (case deswizzle_row e y 0 result of
              Inl f \<Rightarrow> Inl f
            | Inr result' \<Rightarrow> deswizzle_rows e (y + 1) result')
      else Inr result)"
  by pat_completeness auto
termination
proof (relation "measure (\<lambda>(e, y, result). unat (env_height e) - unat y)")
  show "wf (measure (\<lambda>(e, y, result). unat (env_height e) - unat y))"
    by simp
next
  fix e :: deswizzle_env and y :: u32 and result x2 :: "u8 list"
  assume lt: "y < env_height e"
  then have "unat y + unat (1 :: u32) < 2 ^ LENGTH(32)"
    using unsigned_less [of "env_height e", where ?'a = nat] by (simp add: word_less_nat_alt)
  then have "unat (y + 1) = Suc (unat y)"
    by (simp add: unat_add_lem [THEN iffD1])
  with lt show "((e, y + 1, x2), (e, y, result))
      \<in> measure (\<lambda>(e, y, result). unat (env_height e) - unat y)"
    by (simp add: word_less_nat_alt)
qed

text \<open>
  The pitch and the surface size (lines 129 to 137), from the grid width and height,
  the bytes per block, the alignment and the block height in GOBs.
\<close>

definition surface_layout :: "u32 \<Rightarrow> u32 \<Rightarrow> u32 \<Rightarrow> u32 \<Rightarrow> u32 \<Rightarrow> u32 \<Rightarrow> u32 \<times> u32" where
  "surface_layout tileMode width height bpp alignment block_height =
     (if tileMode = 0
      then (let pitch = round_up (width * bpp) 32;
                surfSize = round_up (pitch * height) alignment
            in (pitch, surfSize))
      else (let pitch = round_up (width * bpp) 64;
                surfSize = round_up (pitch * round_up height (block_height * 8)) alignment
            in (pitch, surfSize)))"

text \<open>
  \<open>deswizzle\<close> (lines 120 to 160).  \<open>1 << size_range\<close> is a shift of a 32-bit
  \<open>int\<close>: undefined for \<open>size_range \<ge> 32\<close>.  The result vector starts as
  \<open>surfSize\<close> zero bytes.
\<close>

definition deswizzle :: "u32 \<Rightarrow> u32 \<Rightarrow> u32 \<Rightarrow> u32 \<Rightarrow> u32 \<Rightarrow> u32 \<Rightarrow> u32 \<Rightarrow> u32 \<Rightarrow> u8 list \<Rightarrow> fault + u8 list" where
  "deswizzle width height blkWidth blkHeight bpp tileMode alignment size_range data =
     (if 32 \<le> size_range then Inl ShiftTooWide
      else
        let block_height = push_bit (unat size_range) 1 in
        case DIV_ROUND_UP width blkWidth of
          Inl f \<Rightarrow> Inl f
        | Inr width' \<Rightarrow>
            (case DIV_ROUND_UP height blkHeight of
               Inl f \<Rightarrow> Inl f
             | Inr height' \<Rightarrow>
                 let (pitch, surfSize) =
                       surface_layout tileMode width' height' bpp alignment block_height
                 in deswizzle_rows
                      \<lparr>env_width = width', env_height = height', env_bpp = bpp,
                       env_tileMode = tileMode, env_pitch = pitch, env_surfSize = surfSize,
                       env_block_height = block_height, env_data = data\<rparr>
                      0 (replicate (unat surfSize) 0)))"

declare deswizzle_row.simps [simp del]
declare deswizzle_rows.simps [simp del]

section \<open>DDS header generation\<close>

text \<open>
  \<open>std::memcpy(&header[off], &v, 4)\<close> for a \<open>u32\<close> \<open>v\<close> stores its four bytes,
  least significant first (the converter runs on little-endian machines), and
  \<open>std::memcpy(&header[84], fourcc, 4)\<close> stores four characters.  All offsets are
  constants inside the 128 bytes of the header.
\<close>

definition bytes_of :: "string \<Rightarrow> u8 list" where
  "bytes_of s = map (\<lambda>c. of_nat (of_char c)) s"

definition le32 :: "u32 \<Rightarrow> u8 list" where
  "le32 v = [ucast v, ucast (drop_bit 8 v), ucast (drop_bit 16 v), ucast (drop_bit 24 v)]"

definition store :: "u8 list \<Rightarrow> nat \<Rightarrow> u8 list \<Rightarrow> u8 list" where
  "store header off bs = take off header @ bs @ drop (off + length bs) header"

text \<open>The chain of comparisons that selects the FourCC (lines 200 to 208).\<close>

definition fourcc_of :: "u32 \<Rightarrow> string option" where
  "fourcc_of format =
     (if format = 0x1a then Some ''DXT1''
      else if format = 0x1b then Some ''DXT3''
      else if format = 0x1c then Some ''DXT5''
      else if format = 0x1d then Some ''ATI1''
      else if format = 0x1e then Some ''ATI2''
      else if format = 0x1f then Some ''BC6H''
      else if format = 0x20 then Some ''BC7 ''
      else None)"

text \<open>
  \<open>generateDDSHeader\<close> (lines 166 to 219), one store per statement.  The
  parameter \<open>size\<close> of the source is \<open>size'\<close> here.
\<close>

definition generateDDSHeader :: "u32 \<Rightarrow> u32 \<Rightarrow> u32 \<Rightarrow> u32 \<Rightarrow> u8 list" where
  "generateDDSHeader width height format size' =
     (let header = replicate 128 0;
          header = store header 0 (bytes_of ''DDS '');
          header = store header 4 (le32 124);
          header = store header 8 (le32 (0x1 OR 0x2 OR 0x4 OR 0x1000 OR 0x80000));
          header = store header 12 (le32 height);
          header = store header 16 (le32 width);
          header = store header 20 (le32 size');
          header = store header 28 (le32 1);
          header = store header 76 (le32 32);
          header = store header 80 (le32 0x4);
          header = (case fourcc_of format of
                      None \<Rightarrow> header
                    | Some fourcc \<Rightarrow> store header 84 (bytes_of fourcc));
          header = store header 108 (le32 0x1000)
      in header)"

section \<open>Reading the buffer\<close>

text \<open>
  The readers of the source take a raw pointer \<open>&f[off]\<close> into the file buffer and
  check nothing.  Here they take the buffer and the offset, and a read that leaves the
  buffer is a fault.  \<open>bindf\<close> runs the next step on the value of a step that did not
  fault.
\<close>

definition bindf :: "fault + 'a \<Rightarrow> ('a \<Rightarrow> fault + 'b) \<Rightarrow> fault + 'b" where
  "bindf m k = (case m of Inl e \<Rightarrow> Inl e | Inr v \<Rightarrow> k v)"

definition Read8 :: "u8 list \<Rightarrow> nat \<Rightarrow> fault + u8" where
  "Read8 f off = (if length f < off + 1 then Inl ReadOutOfBounds else Inr (f ! off))"

definition Read16LE :: "u8 list \<Rightarrow> nat \<Rightarrow> fault + u16" where
  "Read16LE f off =
     (if length f < off + 2 then Inl ReadOutOfBounds
      else Inr (ucast (f ! off) OR push_bit 8 (ucast (f ! (off + 1)))))"

definition Read32LE :: "u8 list \<Rightarrow> nat \<Rightarrow> fault + u32" where
  "Read32LE f off =
     (if length f < off + 4 then Inl ReadOutOfBounds
      else Inr (ucast (f ! off) OR push_bit 8 (ucast (f ! (off + 1)))
                OR push_bit 16 (ucast (f ! (off + 2))) OR push_bit 24 (ucast (f ! (off + 3)))))"

definition Read64LE :: "u8 list \<Rightarrow> nat \<Rightarrow> fault + u64" where
  "Read64LE f off =
     (if length f < off + 8 then Inl ReadOutOfBounds
      else Inr (foldl (\<lambda>result i. result OR push_bit (i * 8) (ucast (f ! (off + i)))) 0 [0..<8]))"

definition Read64LE_Signed :: "u8 list \<Rightarrow> nat \<Rightarrow> fault + i64" where
  "Read64LE_Signed f off = Read64LE f off"

text \<open>
  \<open>ReadString\<close> (lines 83 to 89): bytes up to the first zero byte, \<open>maxLen\<close> at
  most.  Byte \<open>i\<close> is read only when \<open>i < maxLen\<close>.
\<close>

fun ReadString :: "u8 list \<Rightarrow> nat \<Rightarrow> nat \<Rightarrow> fault + u8 list" where
  "ReadString f off 0 = Inr []"
| "ReadString f off (Suc maxLen) =
     (if length f \<le> off then Inl ReadOutOfBounds
      else if f ! off = 0 then Inr []
      else bindf (ReadString f (Suc off) maxLen) (\<lambda>rest. Inr (f ! off # rest)))"

text \<open>\<open>std::memcmp(&f[off], lit, n) != 0\<close> for a literal of \<open>n\<close> characters.\<close>

definition memcmp_differs :: "u8 list \<Rightarrow> nat \<Rightarrow> string \<Rightarrow> fault + bool" where
  "memcmp_differs f off lit =
     (if length f < off + length lit then Inl ReadOutOfBounds
      else Inr (take (length lit) (drop off f) \<noteq> bytes_of lit))"

section \<open>BNTX parser\<close>

text \<open>
  The lines the converter writes to \<open>std::cerr\<close>: "File too small!", "Not a valid
  BNTX file!", "Big endian not supported!", "Invalid NX header!", "Invalid texture
  info address!", "Invalid BRTI magic!", "Invalid data address!" in \<open>parseBNTX\<close>,
  "Error: No textures found in file!" in \<open>main\<close>, and "Failed to create" with the
  name of the file in \<open>saveTextures\<close>.
\<close>

datatype diag =
    FileTooSmall | NotBNTX | BigEndianNotSupported | InvalidNXHeader
  | InvalidTexInfoAddress | InvalidBRTIMagic | InvalidDataAddress
  | NoTexturesFound
  | FailedToCreate "u8 list"

text \<open>
  The first read of an iteration of the texture loop (lines 284 and 285): \<open>i * 8\<close>
  is a \<open>u32\<close> product, widened and added to the \<open>i64\<close> base; the sum indexes the
  buffer as a \<open>size_t\<close>.
\<close>

definition read_texInfoAddr :: "u8 list \<Rightarrow> i64 \<Rightarrow> u32 \<Rightarrow> fault + i64" where
  "read_texInfoAddr f infoPtrAddr i = Read64LE_Signed f (unat (infoPtrAddr + ucast (i * 8)))"

text \<open>
  The fields of a BRTI record at \<open>pos\<close> as one iteration reads them (lines 299 to
  313), in the order of the source.  \<open>pos\<close> is a \<open>u32\<close>, and so are the sums
  \<open>pos + 0x10\<close> and so on.  \<open>flags\<close>, \<open>swizzle\<close> and \<open>numMips\<close> are read and
  not used.  The name is a \<open>u16\<close> length at \<open>nameAddr\<close> followed by the characters.
  Line 327 prints \<open>1 << sizeRange\<close>, a shift of a 32-bit \<open>int\<close>.
\<close>

record BRTI =
  brti_tileMode :: u8
  brti_flags :: u16
  brti_swizzle :: u16
  brti_numMips :: u16
  brti_format :: u32
  brti_width :: u32
  brti_height :: u32
  brti_sizeRange :: u32
  brti_imageSize :: u32
  brti_alignment :: u32
  brti_nameAddr :: i64
  brti_ptrsAddr :: i64
  brti_name :: "u8 list"

definition read_BRTI :: "u8 list \<Rightarrow> u32 \<Rightarrow> fault + BRTI" where
  "read_BRTI f pos =
     bindf (Read8 f (unat (pos + 0x10))) (\<lambda>tileMode.
     bindf (Read16LE f (unat (pos + 0x12))) (\<lambda>flags.
     bindf (Read16LE f (unat (pos + 0x14))) (\<lambda>swizzle.
     bindf (Read16LE f (unat (pos + 0x16))) (\<lambda>numMips.
     bindf (Read32LE f (unat (pos + 0x1C))) (\<lambda>format.
     bindf (Read32LE f (unat (pos + 0x24))) (\<lambda>width.
     bindf (Read32LE f (unat (pos + 0x28))) (\<lambda>height.
     bindf (Read32LE f (unat (pos + 0x34))) (\<lambda>sizeRange.
     bindf (Read32LE f (unat (pos + 0x50))) (\<lambda>imageSize.
     bindf (Read32LE f (unat (pos + 0x54))) (\<lambda>alignment.
     bindf (Read64LE_Signed f (unat (pos + 0x60))) (\<lambda>nameAddr.
     bindf (Read64LE_Signed f (unat (pos + 0x70))) (\<lambda>ptrsAddr.
     bindf (Read16LE f (unat nameAddr)) (\<lambda>nameLen.
     bindf (ReadString f (unat (nameAddr + 2)) (unat nameLen)) (\<lambda>name.
     if 32 \<le> sizeRange then Inl ShiftTooWide
     else Inr
       \<lparr>brti_tileMode = tileMode, brti_flags = flags, brti_swizzle = swizzle,
        brti_numMips = numMips, brti_format = format, brti_width = width,
        brti_height = height, brti_sizeRange = sizeRange, brti_imageSize = imageSize,
        brti_alignment = alignment, brti_nameAddr = nameAddr, brti_ptrsAddr = ptrsAddr,
        brti_name = name\<rparr>))))))))))))))"

text \<open>The texture that an iteration appends (lines 337 to 347).\<close>

record BNTXTexture =
  name :: "u8 list"
  width :: u32
  height :: u32
  format :: u32
  tileMode :: u32
  sizeRange :: u32
  alignment :: u32
  imageSize :: u32
  data :: "u8 list"

text \<open>
  One iteration of the texture loop (lines 284 to 349): a fault, or the diagnostic of a
  \<open>continue\<close>, or the texture that is appended.  In line 332 the sum
  \<open>dataAddr + imageSize\<close> is an \<open>i64\<close> that the comparison with \<open>f.size()\<close>
  converts to unsigned.
\<close>

definition parse_texture :: "u8 list \<Rightarrow> i64 \<Rightarrow> u32 \<Rightarrow> fault + (diag + BNTXTexture)" where
  "parse_texture f infoPtrAddr i =
     bindf (read_texInfoAddr f infoPtrAddr i) (\<lambda>texInfoAddr.
     if sint texInfoAddr < 0 \<or> int (length f) \<le> sint texInfoAddr
     then Inr (Inl InvalidTexInfoAddress)
     else
       let pos = (ucast texInfoAddr :: u32) in
       bindf (memcmp_differs f (unat pos) ''BRTI'') (\<lambda>bad_magic.
       if bad_magic then Inr (Inl InvalidBRTIMagic)
       else
         bindf (read_BRTI f pos) (\<lambda>r.
         bindf (Read64LE_Signed f (unat (brti_ptrsAddr r))) (\<lambda>dataAddr.
         if sint dataAddr < 0 \<or> length f < unat (dataAddr + ucast (brti_imageSize r))
         then Inr (Inl InvalidDataAddress)
         else Inr (Inr
           \<lparr>name = brti_name r, width = brti_width r, height = brti_height r,
            format = brti_format r, tileMode = ucast (brti_tileMode r),
            sizeRange = brti_sizeRange r, alignment = brti_alignment r,
            imageSize = brti_imageSize r,
            data = take (unat (brti_imageSize r)) (drop (unat dataAddr) f)\<rparr>)))))"

text \<open>
  The texture loop, \<open>for (u32 i = ...; i < texCount; i++)\<close>, from a given \<open>i\<close>,
  with the diagnostics written and the textures appended so far.  A \<open>continue\<close>
  goes on with \<open>i + 1\<close>.  The variable \<open>pos\<close> is assigned in every iteration
  before it is read, so no iteration sees the \<open>pos\<close> of an earlier one.
\<close>

function parse_textures ::
  "u8 list \<Rightarrow> i64 \<Rightarrow> u32 \<Rightarrow> u32 \<Rightarrow> diag list \<times> BNTXTexture list \<Rightarrow> fault + (diag list \<times> BNTXTexture list)" where
  "parse_textures f infoPtrAddr texCount i acc =
     (if i < texCount
      then (case parse_texture f infoPtrAddr i of
              Inl e \<Rightarrow> Inl e
            | Inr (Inl d) \<Rightarrow> parse_textures f infoPtrAddr texCount (i + 1) (fst acc @ [d], snd acc)
            | Inr (Inr tex) \<Rightarrow> parse_textures f infoPtrAddr texCount (i + 1) (fst acc, snd acc @ [tex]))
      else Inr acc)"
  by pat_completeness auto
termination
proof (relation "measure (\<lambda>(f, infoPtrAddr, texCount, i, acc). unat texCount - unat i)")
  show "wf (measure (\<lambda>(f, infoPtrAddr, texCount, i, acc). unat texCount - unat i))"
    by simp
next
  fix f :: "u8 list" and infoPtrAddr :: i64 and texCount i :: u32
    and acc :: "diag list \<times> BNTXTexture list"
  assume lt: "i < texCount"
  then have "unat i + unat (1 :: u32) < 2 ^ LENGTH(32)"
    using unsigned_less [of texCount, where ?'a = nat] by (simp add: word_less_nat_alt)
  then have step: "unat (i + 1) = Suc (unat i)"
    by (simp add: unat_add_lem [THEN iffD1])
  {
    fix acc' :: "diag list \<times> BNTXTexture list"
    from lt step have "((f, infoPtrAddr, texCount, i + 1, acc'), (f, infoPtrAddr, texCount, i, acc))
        \<in> measure (\<lambda>(f, infoPtrAddr, texCount, i, acc). unat texCount - unat i)"
      by (simp add: word_less_nat_alt)
  }
  then show "\<And>x2 b. ((f, infoPtrAddr, texCount, i + 1, fst acc, snd acc @ [b]), f, infoPtrAddr, texCount, i, acc)
      \<in> measure (\<lambda>(f, infoPtrAddr, texCount, i, acc). unat texCount - unat i)"
    and "\<And>x2 a. ((f, infoPtrAddr, texCount, i + 1, fst acc @ [a], snd acc), f, infoPtrAddr, texCount, i, acc)
      \<in> measure (\<lambda>(f, infoPtrAddr, texCount, i, acc). unat texCount - unat i)"
    by blast+
qed

declare parse_textures.simps [simp del]

text \<open>
  \<open>parseBNTX\<close> (lines 241 to 353): the lines written to \<open>std::cerr\<close> and the
  vector returned.  Every early \<open>return textures\<close> returns the empty vector.  The
  file name is read from an address that is not checked, and then only printed.
\<close>

definition parseBNTX :: "u8 list \<Rightarrow> fault + (diag list \<times> BNTXTexture list)" where
  "parseBNTX f =
     (if length f < 0x100 then Inr ([FileTooSmall], [])
      else
        bindf (memcmp_differs f 0 ''BNTX'') (\<lambda>bad_magic.
        if bad_magic then Inr ([NotBNTX], [])
        else
          let littleEndian = (f ! 0xc = 0xFF \<and> f ! 0xd = 0xFE) in
          if \<not> littleEndian then Inr ([BigEndianNotSupported], [])
          else
            bindf (Read32LE f 0x10) (\<lambda>fileNameAddr.
            bindf (Read32LE f 0x1C) (\<lambda>fileSize.
            bindf (ReadString f (unat fileNameAddr) 256) (\<lambda>fileName.
            bindf (memcmp_differs f 0x20 ''NX  '') (\<lambda>bad_nx.
            if bad_nx then Inr ([InvalidNXHeader], [])
            else
              bindf (Read32LE f (0x20 + 0x04)) (\<lambda>texCount.
              bindf (Read64LE_Signed f (0x20 + 0x08)) (\<lambda>infoPtrAddr.
              bindf (Read64LE_Signed f (0x20 + 0x10)) (\<lambda>dataBlkAddr.
              parse_textures f infoPtrAddr texCount 0 ([], []))))))))))"

section \<open>Texture export\<close>

text \<open>The tables \<open>formats\<close>, \<open>bpps\<close> and \<open>blkDims\<close> (lines 29 to 57).\<close>

definition formats :: "(u32 \<times> string) list" where
  "formats =
     [(0x0b, ''R8_G8_B8_A8''), (0x07, ''R5_G6_B5''), (0x02, ''R8_UNORM''), (0x09, ''R8_G8''),
      (0x1a, ''BC1''), (0x1b, ''BC2''), (0x1c, ''BC3''), (0x1d, ''BC4''), (0x1e, ''BC5''),
      (0x1f, ''BC6H''), (0x20, ''BC7''),
      (0x2d, ''ASTC4x4''), (0x2e, ''ASTC5x4''), (0x2f, ''ASTC5x5''), (0x30, ''ASTC6x5''),
      (0x31, ''ASTC6x6''), (0x32, ''ASTC8x5''), (0x33, ''ASTC8x6''), (0x34, ''ASTC8x8''),
      (0x35, ''ASTC10x5''), (0x36, ''ASTC10x6''), (0x37, ''ASTC10x8''), (0x38, ''ASTC10x10''),
      (0x39, ''ASTC12x10''), (0x3a, ''ASTC12x12'')]"

definition bpps :: "(u32 \<times> u32) list" where
  "bpps =
     [(0x0b, 4), (0x07, 2), (0x02, 1), (0x09, 2), (0x1a, 8),
      (0x1b, 16), (0x1c, 16), (0x1d, 8), (0x1e, 16), (0x1f, 16),
      (0x20, 16), (0x2d, 16), (0x2e, 16), (0x2f, 16), (0x30, 16),
      (0x31, 16), (0x32, 16), (0x33, 16), (0x34, 16), (0x35, 16),
      (0x36, 16), (0x37, 16), (0x38, 16), (0x39, 16), (0x3a, 16)]"

definition blkDims :: "(u32 \<times> u32 \<times> u32) list" where
  "blkDims =
     [(0x1a, 4, 4), (0x1b, 4, 4), (0x1c, 4, 4), (0x1d, 4, 4), (0x1e, 4, 4),
      (0x1f, 4, 4), (0x20, 4, 4), (0x2d, 4, 4), (0x2e, 5, 4), (0x2f, 5, 5),
      (0x30, 6, 5), (0x31, 6, 6), (0x32, 8, 5), (0x33, 8, 6), (0x34, 8, 8),
      (0x35, 10, 5), (0x36, 10, 6), (0x37, 10, 8), (0x38, 10, 10), (0x39, 12, 10),
      (0x3a, 12, 12)]"

text \<open>The key of the three tables (line 361): \<open>tex.format >> 8\<close>.\<close>

definition formatType_of :: "BNTXTexture \<Rightarrow> u32" where
  "formatType_of tex = drop_bit 8 (format tex)"

text \<open>
  What \<open>saveTextures\<close> passes to \<open>deswizzle\<close> for a key (lines 363 to 378):
  nothing when \<open>formats\<close> has no entry, else the block width, the block height and
  the bytes per block, with the defaults 1, 1 and 4.
\<close>

definition format_params :: "u32 \<Rightarrow> (u32 \<times> u32 \<times> u32) option" where
  "format_params formatType =
     (case map_of formats formatType of
        None \<Rightarrow> None
      | Some _ \<Rightarrow>
          let (blkWidth, blkHeight) =
                (case map_of blkDims formatType of None \<Rightarrow> (1, 1) | Some d \<Rightarrow> d);
              bpp = (case map_of bpps formatType of None \<Rightarrow> 4 | Some b \<Rightarrow> b)
          in Some (blkWidth, blkHeight, bpp))"

text \<open>The cut of the deswizzled surface to the expected size (lines 392 to 394).\<close>

definition truncate_result :: "u8 list \<Rightarrow> u32 \<Rightarrow> u8 list" where
  "truncate_result result size' =
     (if unat size' < length result then take (unat size') result else result)"

text \<open>
  One iteration of the loop of \<open>saveTextures\<close> (lines 361 to 409): the lines it
  writes to \<open>std::cerr\<close> and the files it writes, each with its name and its bytes.
  A format without entry in \<open>formats\<close> is skipped (lines 363 to 367).  The file
  \<open>outputDir + "/" + tex.name + ".dds"\<close> is opened after the surface is deswizzled and
  the header generated; \<open>can_create\<close> tells for which names \<open>std::ofstream\<close> opens
  the file.  When it does not, the iteration writes "Failed to create" and no file
  (lines 399 to 403); when it does, the file holds the header followed by the payload.
\<close>

definition save_texture ::
  "(u8 list \<Rightarrow> bool) \<Rightarrow> string \<Rightarrow> BNTXTexture \<Rightarrow> fault + (diag list \<times> (u8 list \<times> u8 list) list)" where
  "save_texture can_create outputDir tex =
     (let formatType = formatType_of tex in
      case format_params formatType of
        None \<Rightarrow> Inr ([], [])
      | Some (blkWidth, blkHeight, bpp) \<Rightarrow>
          bindf (DIV_ROUND_UP (width tex) blkWidth) (\<lambda>w.
          bindf (DIV_ROUND_UP (height tex) blkHeight) (\<lambda>h.
          let size' = w * h * bpp in
          bindf (deswizzle (width tex) (height tex) blkWidth blkHeight bpp (tileMode tex)
                   (alignment tex) (sizeRange tex) (data tex)) (\<lambda>result.
          let result = truncate_result result size';
              header = generateDDSHeader (width tex) (height tex) formatType size';
              outName = bytes_of outputDir @ bytes_of ''/'' @ name tex @ bytes_of ''.dds''
          in if \<not> can_create outName then Inr ([FailedToCreate outName], [])
             else Inr ([], [(outName, header @ result)])))))"

text \<open>\<open>saveTextures\<close> (lines 359 to 411): the iterations in the order of the vector.\<close>

fun saveTextures ::
  "(u8 list \<Rightarrow> bool) \<Rightarrow> string \<Rightarrow> BNTXTexture list \<Rightarrow> fault + (diag list \<times> (u8 list \<times> u8 list) list)" where
  "saveTextures can_create outputDir [] = Inr ([], [])"
| "saveTextures can_create outputDir (tex # textures) =
     bindf (save_texture can_create outputDir tex) (\<lambda>(log, files).
     bindf (saveTextures can_create outputDir textures) (\<lambda>(logs, outs).
     Inr (log @ logs, files @ outs)))"

section \<open>Main\<close>

text \<open>
  \<open>main\<close> from the call of \<open>parseBNTX\<close> on (lines 475 to 493): the lines on
  \<open>std::cerr\<close>, the exit status and the files written.  The exit status is 0 once
  \<open>saveTextures\<close> has run, whatever it wrote.
\<close>

definition main_convert ::
  "(u8 list \<Rightarrow> bool) \<Rightarrow> string \<Rightarrow> u8 list \<Rightarrow> fault + (diag list \<times> int \<times> (u8 list \<times> u8 list) list)" where
  "main_convert can_create outputDir fileData =
     bindf (parseBNTX fileData) (\<lambda>(log, textures).
     if textures = [] then Inr (log @ [NoTexturesFound], 1, [])
     else bindf (saveTextures can_create outputDir textures) (\<lambda>(saved, files).
          Inr (log @ saved, 0, files)))"

section \<open>Definitions for the properties\<close>

text \<open>
  The address translation of a block-linear surface as a formula of its own: the
  ceiling of \<open>n / 64\<close> is the mathematical one, taken of the \<open>u32\<close> value \<open>n\<close>,
  and everything else is \<open>u32\<close> arithmetic, with
  \<open>blockHeightGobs = 2 ^ blockHeightLog2\<close>.
\<close>

definition ceil_div64 :: "u32 \<Rightarrow> u32" where
  "ceil_div64 n = of_nat ((unat n + 63) div 64)"

definition gob_address_spec :: "u32 \<Rightarrow> u32 \<Rightarrow> u32 \<Rightarrow> u32 \<Rightarrow> u32 \<Rightarrow> u32" where
  "gob_address_spec x y gridW bytesPerBlock blockHeightLog2 =
     (let blockHeightGobs = 2 ^ unat blockHeightLog2 in
      (y div (8 * blockHeightGobs)) * 512 * blockHeightGobs * ceil_div64 (gridW * bytesPerBlock)
      + ((x * bytesPerBlock) div 64) * 512 * blockHeightGobs
      + ((y mod (8 * blockHeightGobs)) div 8) * 512
      + (((x * bytesPerBlock) mod 64) div 32) * 256 + ((y mod 8) div 2) * 64
      + (((x * bytesPerBlock) mod 32) div 16) * 32 + (y mod 2) * 16 + ((x * bytesPerBlock) mod 16))"

text \<open>
  A surface of \<open>h\<close> rows stored with a row stride of \<open>pitch\<close> bytes, without the
  padding: the first \<open>row\<close> bytes of every row, one row after the other.
\<close>

fun strip_row_padding :: "nat \<Rightarrow> nat \<Rightarrow> nat \<Rightarrow> u8 list \<Rightarrow> u8 list" where
  "strip_row_padding pitch row 0 input = []"
| "strip_row_padding pitch row (Suc h) input =
     take row input @ strip_row_padding pitch row h (drop pitch input)"

text \<open>
  The loop values of a linear surface whose sizes did not wrap around: every row of
  blocks fits into the pitch, and \<open>height\<close> rows of \<open>pitch\<close> bytes fit into the
  surface size and into the payload.
\<close>

definition linear_env_ok :: "deswizzle_env \<Rightarrow> bool" where
  "linear_env_ok e \<longleftrightarrow>
     env_tileMode e = 0 \<and> env_bpp e \<noteq> 0
     \<and> unat (env_width e) * unat (env_bpp e) \<le> unat (env_pitch e)
     \<and> unat (env_pitch e) * unat (env_height e) \<le> unat (env_surfSize e)
     \<and> unat (env_pitch e) * unat (env_height e) \<le> length (env_data e)"

text \<open>
  The header after the stores of lines 170 to 197, before the FourCC is stored.
\<close>

definition header_before_fourcc :: "u32 \<Rightarrow> u32 \<Rightarrow> u32 \<Rightarrow> u8 list" where
  "header_before_fourcc w h sz =
     store (store (store (store (store (store (store (store (store (replicate 128 0)
       0 (bytes_of ''DDS '')) 4 (le32 124)) 8 (le32 (0x1 OR 0x2 OR 0x4 OR 0x1000 OR 0x80000)))
       12 (le32 h)) 16 (le32 w)) 20 (le32 sz)) 28 (le32 1)) 76 (le32 32)) 80 (le32 0x4)"

text \<open>The table of FourCC codes by format code.\<close>

definition fourcc_table :: "(u32 \<times> string) list" where
  "fourcc_table =
     [(0x1a, ''DXT1''), (0x1b, ''DXT3''), (0x1c, ''DXT5''), (0x1d, ''ATI1''),
      (0x1e, ''ATI2''), (0x1f, ''BC6H''), (0x20, ''BC7 '')]"

text \<open>
  The key of a raw format field as a number: the field divided by 256, that is the
  field without its lowest byte.
\<close>

definition format_key :: "u32 \<Rightarrow> u32" where
  "format_key fmt = of_nat (unat fmt div 256)"

text \<open>
  The diagnostics of a fatal parse failure, and the condition on the buffer under
  which the parser is to fail: the buffer is shorter than \<open>0x100\<close> bytes, or bytes
  0 to 3 are not "BNTX", or the bytes at \<open>0xC\<close> and \<open>0xD\<close> are not \<open>FF FE\<close>, or the
  bytes at \<open>0x20\<close> to \<open>0x23\<close> are not "NX  ".
\<close>

definition fatal_diags :: "diag set" where
  "fatal_diags = {FileTooSmall, NotBNTX, BigEndianNotSupported, InvalidNXHeader}"

definition spec_fatal :: "u8 list \<Rightarrow> bool" where
  "spec_fatal f \<longleftrightarrow>
     length f < 0x100
     \<or> take 4 f \<noteq> bytes_of ''BNTX''
     \<or> (f ! 0xC, f ! 0xD) \<noteq> (0xFF, 0xFE)
     \<or> take 4 (drop 0x20 f) \<noteq> bytes_of ''NX  ''"



text \<open>What the iteration for index \<open>i\<close> alone writes and appends.\<close>

definition skipped_at :: "u8 list \<Rightarrow> i64 \<Rightarrow> u32 \<Rightarrow> diag list" where
  "skipped_at f infoPtrAddr i =
     (case parse_texture f infoPtrAddr i of Inr (Inl d) \<Rightarrow> [d] | _ \<Rightarrow> [])"

definition parsed_at :: "u8 list \<Rightarrow> i64 \<Rightarrow> u32 \<Rightarrow> BNTXTexture list" where
  "parsed_at f infoPtrAddr i =
     (case parse_texture f infoPtrAddr i of Inr (Inr tex) \<Rightarrow> [tex] | _ \<Rightarrow> [])"

text \<open>
  A BNTX file of 256 bytes for the examples: the header, the info pointers \<open>ptrs\<close>
  (three at most) at \<open>0x38\<close>, one BRTI record at \<open>0x50\<close> (block linear, format
  \<open>0x1a01\<close>, alignment 512) with the given width, height, image size and data pointer,
  the name "T" at \<open>0xC8\<close>, the data pointer table at \<open>0xD0\<close>, and the bytes 1 to 8 at
  \<open>0xD8\<close>.
\<close>

definition le64 :: "u64 \<Rightarrow> u8 list" where
  "le64 v = map (\<lambda>i. ucast (drop_bit (i * 8) v)) [0..<8]"

definition sample_brti :: "u32 \<Rightarrow> u32 \<Rightarrow> u32 \<Rightarrow> u64 \<Rightarrow> u8 list" where
  "sample_brti w h imgSize dataAddr =
     bytes_of ''BRTI'' @ replicate 12 0 @ [1] @ replicate 11 0 @ le32 0x1a01 @ replicate 4 0
     @ le32 w @ le32 h @ replicate 8 0 @ le32 0 @ replicate 24 0 @ le32 imgSize @ le32 512
     @ replicate 8 0 @ le64 0xC8 @ replicate 8 0 @ le64 0xD0
     @ le32 0x540001 @ replicate 4 0 @ le64 dataAddr"

definition sample_bntx :: "u64 list \<Rightarrow> u32 \<Rightarrow> u32 \<Rightarrow> u32 \<Rightarrow> u64 \<Rightarrow> u8 list" where
  "sample_bntx ptrs w h imgSize dataAddr =
     bytes_of ''BNTX'' @ replicate 8 0 @ [0xFF, 0xFE] @ replicate 2 0
     @ le32 4 @ replicate 8 0 @ le32 0x100
     @ bytes_of ''NX  '' @ le32 (of_nat (length ptrs)) @ le64 0x38 @ le64 0
     @ take 24 (concat (map le64 ptrs) @ replicate 24 0)
     @ sample_brti w h imgSize dataAddr
     @ [1, 2, 3, 4, 5, 6, 7, 8] @ replicate 32 0"


section \<open>Steps that do not fault\<close>

lemma bindf_eq_Inr: "bindf m k = Inr v \<longleftrightarrow> (\<exists>x. m = Inr x \<and> k x = Inr v)"
  by (cases m) (simp_all add: bindf_def)

lemma bindf_Inr: "bindf (Inr x) k = k x"
  by (simp add: bindf_def)

section \<open>Arithmetic on \<open>u32\<close> without wrap-around\<close>

lemma unat_mult_exact:
  fixes a b :: u32
  assumes "unat a * unat b \<le> m" and "m < 2 ^ 32"
  shows "unat (a * b) = unat a * unat b"
proof -
  from assms have "unat a * unat b < 2 ^ LENGTH(32)"
    by simp
  then show ?thesis
    by (simp only: unat_mult_lem [THEN iffD1])
qed

lemma unat_add_exact:
  fixes a b :: u32
  assumes "unat a + unat b \<le> m" and "m < 2 ^ 32"
  shows "unat (a + b) = unat a + unat b"
proof -
  from assms have "unat a + unat b < 2 ^ LENGTH(32)"
    by simp
  then show ?thesis
    by (simp only: unat_add_lem [THEN iffD1])
qed

lemma unat_Suc_of_less:
  fixes x w :: u32
  assumes "x < w"
  shows "unat (x + 1) = Suc (unat x)"
proof -
  from assms have "unat x + unat (1 :: u32) < 2 ^ LENGTH(32)"
    using unsigned_less [of w, where ?'a = nat] by (simp add: word_less_nat_alt)
  then show ?thesis
    by (simp add: unat_add_lem [THEN iffD1])
qed

lemma unat_mult_le:
  fixes a b :: "'a::len word"
  shows "unat (a * b) \<le> unat a * unat b"
  by (simp add: unat_word_ariths)

lemma unat_exp_u32:
  assumes "k < 32"
  shows "unat (2 ^ k :: u32) = 2 ^ k"
proof -
  have "(2 ^ k :: u32) = of_nat (2 ^ k)"
    by simp
  moreover from assms have "(2 ^ k :: nat) < 2 ^ 32"
    by (simp only: power_strict_increasing_iff one_less_numeral_iff semiring_norm)
  ultimately show ?thesis
    by (simp only: unat_of_nat) simp
qed

lemma unat_block_height8:
  fixes size_range :: u32
  assumes "size_range < 29"
  shows "unat (push_bit (unat size_range) 1 * 8 :: u32) = 8 * 2 ^ unat size_range"
proof -
  from assms have sr: "unat size_range < 29"
    by (simp add: word_less_nat_alt)
  have "(push_bit (unat size_range) 1 * 8 :: u32) = 2 ^ (unat size_range + 3)"
    by (simp add: push_bit_of_1 power_add)
  moreover from sr have "unat size_range + 3 < 32"
    by simp
  ultimately have "unat (push_bit (unat size_range) 1 * 8 :: u32) = 2 ^ (unat size_range + 3)"
    by (simp only: unat_exp_u32)
  then show ?thesis
    by (simp add: power_add)
qed

lemma unat_or_le_add:
  fixes a b :: "'a::len word"
  shows "unat (a OR b) \<le> unat a + unat b"
proof -
  have "uint (a OR b) = uint a OR uint b"
    by (rule unsigned_or_eq)
  moreover have "(uint a AND uint b) + (uint a OR uint b) = uint a + uint b"
    by (rule plus_and_or)
  moreover have "0 \<le> uint a AND uint b"
    by simp
  ultimately have "uint (a OR b) \<le> uint a + uint b"
    by linarith
  then have "int (unat (a OR b)) \<le> int (unat a + unat b)"
    unfolding uint_nat by (simp only: of_nat_add)
  then show ?thesis
    by (simp only: of_nat_le_iff)
qed

lemma round_up_ge:
  fixes x y :: u32
  assumes "y \<noteq> 0" and "unat x + unat y \<le> 2 ^ 32"
  shows "unat x \<le> unat (round_up x y)"
proof (cases "x = 0")
  case True
  then show ?thesis by simp
next
  case False
  with assms(1) have xm: "unat (x - 1) = unat x - 1" and ym: "unat (y - 1) = unat y - 1"
    by (simp_all add: unat_minus_one)
  from False assms(1) have pos: "0 < unat x" "0 < unat y"
    by (simp_all add: unat_gt_0)
  have "unat ((x - 1) OR (y - 1)) \<le> unat (x - 1) + unat (y - 1)"
    by (rule unat_or_le_add)
  with xm ym pos assms(2) have "unat ((x - 1) OR (y - 1)) + unat (1 :: u32) < 2 ^ LENGTH(32)"
    by simp
  then have "unat (((x - 1) OR (y - 1)) + 1) = unat ((x - 1) OR (y - 1)) + 1"
    by (simp add: unat_add_lem [THEN iffD1])
  moreover have "unat (x - 1) \<le> unat ((x - 1) OR (y - 1))"
    using le_word_or2 [of "x - 1" "y - 1"] by (simp add: word_le_nat_alt)
  ultimately show ?thesis
    using xm pos by (simp add: round_up_def)
qed

section \<open>The source offset of a block in tiled mode\<close>

lemma gobs_div:
  fixes n c :: u32
  shows "c * 512 * ((n + 63) div 64) = c * 512 * ceil_div64 n"
proof (cases "unat n + 63 < 2 ^ 32")
  case True
  then have "unat (n + 63) = unat n + 63"
    by (simp add: unat_add_lem [THEN iffD1])
  then have "unat ((n + 63) div 64) = (unat n + 63) div 64"
    by (simp add: unat_div)
  then have "(n + 63) div 64 = ceil_div64 n"
    unfolding ceil_div64_def by (metis of_nat_unat ucast_id)
  then show ?thesis by (simp only:)
next
  case False
  have lt: "unat n < 2 ^ 32"
    using unsigned_less [of n, where ?'a = nat] by simp
  from False lt have "(unat n + 63) mod 2 ^ 32 = unat n + 63 - 2 ^ 32"
    by (simp add: mod_if)
  then have "unat (n + 63) = unat n + 63 - 2 ^ 32"
    by (simp add: unat_word_ariths)
  with False lt have "unat ((n + 63) div 64) = 0"
    by (simp add: unat_div)
  then have z: "(n + 63) div 64 = 0"
    by (simp add: unat_eq_0)
  from False lt have "(unat n + 63) div 64 = 2 ^ 26"
    by simp
  then have "ceil_div64 n = 2 ^ 26"
    by (simp add: ceil_div64_def)
  then have "c * 512 * ceil_div64 n = c * (512 * 2 ^ 26)"
    by (simp add: mult.assoc)
  also have "(512 * 2 ^ 26 :: u32) = 0"
    by simp
  finally show ?thesis by (simp only: z mult_zero_right)
qed

lemma gobs_term:
  fixes n c bh :: u32
  shows "c * 512 * bh * ((n + 64 - 1) div 64) = c * 512 * bh * ceil_div64 n"
proof -
  have e: "n + 64 - 1 = n + 63"
    by simp
  have "c * 512 * bh * ((n + 63) div 64) = (c * bh) * 512 * ((n + 63) div 64)"
    by (simp only: mult_ac)
  also have "\<dots> = (c * bh) * 512 * ceil_div64 n"
    by (rule gobs_div)
  also have "\<dots> = c * 512 * bh * ceil_div64 n"
    by (simp only: mult_ac)
  finally show ?thesis
    by (simp only: e)
qed

lemma block_height_nonzero:
  fixes size_range :: u32
  assumes "size_range < 29"
  shows "8 * (2 ^ unat size_range :: u32) \<noteq> 0"
proof -
  from assms have "unat size_range < 29"
    by (simp add: word_less_nat_alt)
  then have "unat size_range + 3 < LENGTH(32)"
    by simp
  then have "(2 ^ (unat size_range + 3) :: u32) \<noteq> 0"
    by simp
  then show ?thesis
    by (simp add: power_add mult.commute)
qed

text \<open>
  C2.  In tiled mode (\<open>tileMode \<noteq> 0\<close>) the source offset that \<open>deswizzle\<close>
  computes for the block at \<open>(x, y)\<close>, with the block height \<open>1 << size_range\<close> it
  set up, is the value of the GOB address translation formula, bit for bit.  For
  \<open>size_range \<ge> 29\<close> the divisor \<open>8 * block_height\<close> is zero in \<open>u32\<close> and
  neither side is defined.
\<close>

theorem source_pos_tiled:
  assumes "env_tileMode e \<noteq> 0"
    and "env_block_height e = push_bit (unat size_range) 1"
    and "size_range < 29"
  shows "source_pos e x y = Inr (gob_address_spec x y (env_width e) (env_bpp e) size_range)"
proof -
  have bh: "env_block_height e = 2 ^ unat size_range"
    using assms(2) by (simp add: push_bit_of_1)
  have nz: "8 * (2 ^ unat size_range :: u32) \<noteq> 0"
    using assms(3) by (rule block_height_nonzero)
  show ?thesis
    using assms(1) nz
    by (simp only: source_pos_def getAddrBlockLinear_def gob_address_spec_def bh Let_def
        gobs_term if_False add_0 sum.inject)
qed

theorem source_pos_tiled_witness:
  "source_pos
     \<lparr>env_width = 4, env_height = 16, env_bpp = 16, env_tileMode = 1, env_pitch = 64,
      env_surfSize = 1024, env_block_height = push_bit (unat (1 :: u32)) 1, env_data = []\<rparr> 3 9
     = Inr (gob_address_spec 3 9 4 16 1)
   \<and> gob_address_spec 3 9 4 16 1 = 816"
  using source_pos_tiled
    [of "\<lparr>env_width = 4, env_height = 16, env_bpp = 16, env_tileMode = 1, env_pitch = 64,
      env_surfSize = 1024, env_block_height = push_bit (unat (1 :: u32)) 1, env_data = []\<rparr>"
      1 3 9]
  by (simp add: gob_address_spec_def ceil_div64_def)

section \<open>Linear mode\<close>

lemma linear_offsets:
  assumes ok: "linear_env_ok e" and x: "x < env_width e" and y: "y < env_height e"
  defines "B \<equiv> unat (env_bpp e)" and "W \<equiv> unat (env_width e)" and "P \<equiv> unat (env_pitch e)"
  shows "unat (y * env_pitch e + x * env_bpp e) = unat y * P + unat x * B"
    and "unat (y * env_pitch e + x * env_bpp e + env_bpp e) = unat y * P + unat x * B + B"
    and "unat ((y * env_width e + x) * env_bpp e) = (unat y * W + unat x) * B"
    and "unat ((y * env_width e + x) * env_bpp e + env_bpp e) = (unat y * W + unat x) * B + B"
    and "unat y * P + unat x * B + B \<le> P * unat (env_height e)"
    and "(unat y * W + unat x) * B + B \<le> unat y * P + unat x * B + B"
proof -
  let ?H = "unat (env_height e)" and ?S = "unat (env_surfSize e)"
  from ok have B0: "0 < B" and WB: "W * B \<le> P" and PH: "P * ?H \<le> ?S"
    by (simp_all add: linear_env_ok_def B_def W_def P_def unat_gt_0)
  have S: "?S < 2 ^ 32"
    using unsigned_less [of "env_surfSize e", where ?'a = nat] by simp
  from x y have X: "unat x < W" and Y: "unat y < ?H"
    by (simp_all add: word_less_nat_alt W_def)
  from X have "(unat x + 1) * B \<le> W * B"
    by (intro mult_le_mono1) simp
  with WB have xb: "unat x * B + B \<le> P"
    by (simp add: algebra_simps)
  from Y have "(unat y + 1) * P \<le> ?H * P"
    by (intro mult_le_mono1) simp
  then have yp: "unat y * P + P \<le> P * ?H"
    by (simp add: algebra_simps)
  from xb yp show bound: "unat y * P + unat x * B + B \<le> P * ?H"
    by linarith
  have yP: "unat (y * env_pitch e) = unat y * P"
    unfolding P_def using yp PH S by (intro unat_mult_exact [where m = ?S]) (simp_all add: P_def)
  have xB: "unat (x * env_bpp e) = unat x * B"
    unfolding B_def using xb yp PH S by (intro unat_mult_exact [where m = ?S]) (simp_all add: B_def)
  show pos: "unat (y * env_pitch e + x * env_bpp e) = unat y * P + unat x * B"
    using bound PH S yP xB by (subst unat_add_exact [where m = ?S]) simp_all
  show "unat (y * env_pitch e + x * env_bpp e + env_bpp e) = unat y * P + unat x * B + B"
    using bound PH S pos by (subst unat_add_exact [where m = ?S]) (simp_all add: B_def)
  have "unat y * W * B \<le> unat y * P"
    using WB by (simp add: mult.assoc)
  then show le: "(unat y * W + unat x) * B + B \<le> unat y * P + unat x * B + B"
    by (simp add: algebra_simps)
  from B0 have "unat y * W + unat x \<le> (unat y * W + unat x) * B"
    by simp
  with le bound PH S have small: "unat y * W + unat x \<le> ?S"
    by linarith
  have yW: "unat (y * env_width e) = unat y * W"
    unfolding W_def using small S by (intro unat_mult_exact [where m = ?S]) (simp_all add: W_def)
  have sum: "unat (y * env_width e + x) = unat y * W + unat x"
    using small S yW by (subst unat_add_exact [where m = ?S]) simp_all
  show dst: "unat ((y * env_width e + x) * env_bpp e) = (unat y * W + unat x) * B"
    using le bound PH S sum by (subst unat_mult_exact [where m = ?S]) (simp_all add: B_def)
  show "unat ((y * env_width e + x) * env_bpp e + env_bpp e) = (unat y * W + unat x) * B + B"
    using le bound PH S dst by (subst unat_add_exact [where m = ?S]) (simp_all add: B_def)
qed

lemma deswizzle_block_linear:
  assumes ok: "linear_env_ok e" and x: "x < env_width e" and y: "y < env_height e"
    and len: "length result = unat (env_surfSize e)"
  shows "deswizzle_block e x y result =
    Inr (take ((unat y * unat (env_width e) + unat x) * unat (env_bpp e)) result
         @ take (unat (env_bpp e))
             (drop (unat y * unat (env_pitch e) + unat x * unat (env_bpp e)) (env_data e))
         @ drop ((unat y * unat (env_width e) + unat x) * unat (env_bpp e) + unat (env_bpp e)) result)"
proof -
  note off = linear_offsets [OF ok x y]
  from ok have lin: "env_tileMode e = 0"
    and PH: "unat (env_pitch e) * unat (env_height e) \<le> unat (env_surfSize e)"
    and PD: "unat (env_pitch e) * unat (env_height e) \<le> length (env_data e)"
    by (simp_all add: linear_env_ok_def)
  have g1: "y * env_pitch e + x * env_bpp e + env_bpp e \<le> env_surfSize e"
    using off(2) off(5) PH by (simp add: word_le_nat_alt)
  have g2: "unat ((y * env_width e + x) * env_bpp e + env_bpp e) \<le> length (env_data e)"
    using off(4) off(5) off(6) PD by simp
  have r: "\<not> length (env_data e) < unat y * unat (env_pitch e) + unat x * unat (env_bpp e) + unat (env_bpp e)"
    using off(5) PD by simp
  have w: "\<not> length result < (unat y * unat (env_width e) + unat x) * unat (env_bpp e) + unat (env_bpp e)"
    using off(5) off(6) PH len by simp
  show ?thesis
    using g1 g2 r w
    by (simp add: deswizzle_block_def source_pos_def lin Let_def memcpy_block_def off(1) off(3))
qed

lemma blit_take:
  assumes "d \<le> length xs" and "length blk = n"
  shows "take (d + n) (take d xs @ blk @ ys) = take d xs @ blk"
  using assms by simp

lemma blit_drop:
  assumes "d + n \<le> length xs" and "length blk = n" and "d + n \<le> k"
  shows "drop k (take d xs @ blk @ drop (d + n) xs) = drop k xs"
  using assms by simp

lemma blit_length:
  assumes "d + n \<le> length xs" and "length blk = n"
  shows "length (take d xs @ blk @ drop (d + n) xs) = length xs"
  using assms by simp

lemma deswizzle_row_linear:
  assumes ok: "linear_env_ok e" and y: "y < env_height e"
    and len: "length result = unat (env_surfSize e)"
    and n: "n = unat (env_width e) - unat x" and x: "x \<le> env_width e"
  shows "deswizzle_row e y x result =
    Inr (take ((unat y * unat (env_width e) + unat x) * unat (env_bpp e)) result
         @ take (n * unat (env_bpp e))
             (drop (unat y * unat (env_pitch e) + unat x * unat (env_bpp e)) (env_data e))
         @ drop ((unat y * unat (env_width e) + unat x) * unat (env_bpp e) + n * unat (env_bpp e)) result)"
  using len n x
proof (induction n arbitrary: x result)
  case 0
  then have "unat x = unat (env_width e)"
    by (simp add: word_le_nat_alt)
  then have "\<not> x < env_width e"
    by (simp add: word_less_nat_alt)
  then show ?case
    by (subst deswizzle_row.simps) simp
next
  case (Suc n)
  let ?B = "unat (env_bpp e)" and ?W = "unat (env_width e)" and ?P = "unat (env_pitch e)"
  let ?d = "(unat y * ?W + unat x) * ?B" and ?s = "unat y * ?P + unat x * ?B"
  let ?blk = "take ?B (drop ?s (env_data e))"
  let ?r1 = "take ?d result @ ?blk @ drop (?d + ?B) result"
  from Suc.prems have lt: "x < env_width e"
    by (simp add: word_less_nat_alt)
  note off = linear_offsets [OF ok lt y]
  from ok have PH: "?P * unat (env_height e) \<le> unat (env_surfSize e)"
    and PD: "?P * unat (env_height e) \<le> length (env_data e)"
    by (simp_all add: linear_env_ok_def)
  have blk: "length ?blk = ?B"
    using off(5) PD by simp
  have fits: "?d + ?B \<le> length result"
    using off(5) off(6) PH Suc.prems(1) by simp
  have step: "deswizzle_block e x y result = Inr ?r1"
    using ok lt y Suc.prems(1) by (rule deswizzle_block_linear)
  have x1: "unat (x + 1) = Suc (unat x)"
    using lt by (rule unat_Suc_of_less)
  have len1: "length ?r1 = unat (env_surfSize e)"
    using fits blk Suc.prems(1) by (simp only: blit_length)
  have n1: "n = ?W - unat (x + 1)"
    using Suc.prems(2) x1 by simp
  have le1: "x + 1 \<le> env_width e"
    using lt x1 by (simp add: word_le_nat_alt word_less_nat_alt)
  have d1: "(unat y * ?W + unat (x + 1)) * ?B = ?d + ?B"
    and s1: "unat y * ?P + unat (x + 1) * ?B = ?s + ?B"
    unfolding x1 by (simp_all add: algebra_simps)
  have "deswizzle_row e y (x + 1) ?r1 =
      Inr (take (?d + ?B) ?r1 @ take (n * ?B) (drop (?s + ?B) (env_data e))
           @ drop (?d + ?B + n * ?B) ?r1)"
    using Suc.IH [OF len1 n1 le1] by (simp only: d1 s1)
  also have "take (?d + ?B) ?r1 = take ?d result @ ?blk"
    using fits blk by (intro blit_take) simp_all
  also have "drop (?d + ?B + n * ?B) ?r1 = drop (?d + ?B + n * ?B) result"
    using fits blk by (intro blit_drop) simp_all
  also have "(take ?d result @ ?blk) @ take (n * ?B) (drop (?s + ?B) (env_data e))
        @ drop (?d + ?B + n * ?B) result
      = take ?d result @ take (Suc n * ?B) (drop ?s (env_data e))
        @ drop (?d + Suc n * ?B) result"
  proof -
    have "take (?B + n * ?B) (drop ?s (env_data e))
        = ?blk @ take (n * ?B) (drop (?s + ?B) (env_data e))"
      by (simp only: take_add drop_drop add.commute [of ?B ?s])
    moreover have "?d + ?B + n * ?B = ?d + Suc n * ?B" and "Suc n * ?B = ?B + n * ?B"
      by simp_all
    ultimately show ?thesis
      by (simp only: append_assoc)
  qed
  finally have rest: "deswizzle_row e y (x + 1) ?r1 =
      Inr (take ?d result @ take (Suc n * ?B) (drop ?s (env_data e))
        @ drop (?d + Suc n * ?B) result)" .
  show ?case
    by (subst deswizzle_row.simps) (simp only: lt step rest if_True sum.case)
qed

lemma length_strip_row_padding:
  assumes "row \<le> pitch" and "pitch * h \<le> length input"
  shows "length (strip_row_padding pitch row h input) = h * row"
  using assms
proof (induction h arbitrary: input)
  case 0
  then show ?case by simp
next
  case (Suc h)
  from Suc.prems have "pitch + pitch * h \<le> length input"
    by simp
  then have "pitch * h \<le> length (drop pitch input)" and "row \<le> length input"
    using Suc.prems(1) by simp_all
  with Suc.IH [OF Suc.prems(1)] show ?case
    by simp
qed

lemma deswizzle_rows_linear:
  assumes ok: "linear_env_ok e"
    and len: "length result = unat (env_surfSize e)"
    and n: "n = unat (env_height e) - unat y" and y: "y \<le> env_height e"
  shows "deswizzle_rows e y result =
    Inr (take (unat y * (unat (env_width e) * unat (env_bpp e))) result
         @ strip_row_padding (unat (env_pitch e)) (unat (env_width e) * unat (env_bpp e)) n
             (drop (unat y * unat (env_pitch e)) (env_data e))
         @ drop (unat (env_height e) * (unat (env_width e) * unat (env_bpp e))) result)"
  using len n y
proof (induction n arbitrary: y result)
  case 0
  let ?R = "unat (env_width e) * unat (env_bpp e)"
  from 0 have eq: "unat y = unat (env_height e)"
    by (simp add: word_le_nat_alt)
  then have "\<not> y < env_height e"
    by (simp add: word_less_nat_alt)
  then show ?case
    by (subst deswizzle_rows.simps) (simp add: eq)
next
  case (Suc n)
  let ?B = "unat (env_bpp e)" and ?W = "unat (env_width e)" and ?P = "unat (env_pitch e)"
  let ?H = "unat (env_height e)"
  let ?R = "?W * ?B"
  let ?row = "take ?R (drop (unat y * ?P) (env_data e))"
  let ?r1 = "take (unat y * ?R) result @ ?row @ drop (unat y * ?R + ?R) result"
  from Suc.prems have lt: "y < env_height e"
    by (simp add: word_less_nat_alt)
  then have Y: "unat y < ?H"
    by (simp add: word_less_nat_alt)
  from ok have WB: "?R \<le> ?P" and PH: "?P * ?H \<le> unat (env_surfSize e)"
    and PD: "?P * ?H \<le> length (env_data e)"
    by (simp_all add: linear_env_ok_def)
  from Y have "(unat y + 1) * ?P \<le> ?H * ?P"
    by (intro mult_le_mono1) simp
  then have yp: "unat y * ?P + ?P \<le> ?P * ?H"
    by (simp add: algebra_simps)
  from Y have "(unat y + 1) * ?R \<le> ?H * ?R"
    by (intro mult_le_mono1) simp
  then have yr: "unat y * ?R + ?R \<le> ?H * ?R"
    by (simp add: algebra_simps)
  have "?H * ?R \<le> ?H * ?P"
    using WB by (rule mult_le_mono2)
  also have "\<dots> = ?P * ?H"
    by (rule mult.commute)
  also note PH
  finally have HR: "?H * ?R \<le> unat (env_surfSize e)" .
  have row: "length ?row = ?R"
    using yp PD WB by simp
  have fits: "unat y * ?R + ?R \<le> length result"
    using yr HR Suc.prems(1) by simp
  have "deswizzle_row e y 0 result =
      Inr (take ((unat y * ?W + unat (0 :: u32)) * ?B) result
         @ take (?W * ?B) (drop (unat y * ?P + unat (0 :: u32) * ?B) (env_data e))
         @ drop ((unat y * ?W + unat (0 :: u32)) * ?B + ?W * ?B) result)"
    using ok lt Suc.prems(1) by (rule deswizzle_row_linear) simp_all
  then have step: "deswizzle_row e y 0 result = Inr ?r1"
    by (simp add: mult.assoc)
  have y1: "unat (y + 1) = Suc (unat y)"
    using lt by (rule unat_Suc_of_less)
  have len1: "length ?r1 = unat (env_surfSize e)"
    using fits row Suc.prems(1) by (simp only: blit_length)
  have n1: "n = ?H - unat (y + 1)"
    using Suc.prems(2) y1 by simp
  have le1: "y + 1 \<le> env_height e"
    using lt y1 by (simp add: word_le_nat_alt word_less_nat_alt)
  have d1: "unat (y + 1) * ?R = unat y * ?R + ?R"
    and s1: "unat (y + 1) * ?P = unat y * ?P + ?P"
    unfolding y1 by simp_all
  have "deswizzle_rows e (y + 1) ?r1 =
      Inr (take (unat y * ?R + ?R) ?r1
           @ strip_row_padding ?P ?R n (drop (unat y * ?P + ?P) (env_data e))
           @ drop (?H * ?R) ?r1)"
    using Suc.IH [OF len1 n1 le1] by (simp only: d1 s1)
  also have "take (unat y * ?R + ?R) ?r1 = take (unat y * ?R) result @ ?row"
    using fits row by (intro blit_take) simp_all
  also have "drop (?H * ?R) ?r1 = drop (?H * ?R) result"
    using fits row yr by (intro blit_drop) simp_all
  also have "(take (unat y * ?R) result @ ?row)
        @ strip_row_padding ?P ?R n (drop (unat y * ?P + ?P) (env_data e))
        @ drop (?H * ?R) result
      = take (unat y * ?R) result
        @ strip_row_padding ?P ?R (Suc n) (drop (unat y * ?P) (env_data e))
        @ drop (?H * ?R) result"
    by (simp add: add.commute)
  finally have rest: "deswizzle_rows e (y + 1) ?r1 =
      Inr (take (unat y * ?R) result
        @ strip_row_padding ?P ?R (Suc n) (drop (unat y * ?P) (env_data e))
        @ drop (?H * ?R) result)" .
  show ?case
    by (subst deswizzle_rows.simps) (simp only: lt step rest if_True sum.case)
qed

text \<open>
  C3, as amended.  In linear mode, for \<open>bpp > 0\<close>, when the pitch
  \<open>round_up (gridW * bpp) 32\<close> does not wrap around, the surface size is at least
  \<open>pitch * gridH\<close> and the payload holds at least \<open>pitch * gridH\<close> bytes,
  \<open>deswizzle\<close> returns, and its output cut to \<open>gridW * gridH * bpp\<close> bytes is the
  payload without the padding at the end of each row.
\<close>

theorem linear_deswizzle_strips_row_padding:
  assumes gw: "DIV_ROUND_UP w blkWidth = Inr gridW"
    and gh: "DIV_ROUND_UP h blkHeight = Inr gridH"
    and sr: "size_range < 32"
    and bpp: "bpp \<noteq> 0"
    and layout: "surface_layout 0 gridW gridH bpp align (push_bit (unat size_range) 1)
        = (pitch, surfSize)"
    and fits: "unat gridW * unat bpp + 32 \<le> 2 ^ 32"
    and surf: "unat pitch * unat gridH \<le> unat surfSize"
    and input: "unat pitch * unat gridH \<le> length dat"
  shows "\<exists>result.
      deswizzle w h blkWidth blkHeight bpp 0 align size_range dat = Inr result
      \<and> truncate_result result (gridW * gridH * bpp)
          = strip_row_padding (unat pitch) (unat gridW * unat bpp) (unat gridH) dat"
proof -
  let ?W = "unat gridW" and ?H = "unat gridH" and ?B = "unat bpp"
  let ?P = "unat pitch" and ?S = "unat surfSize"
  let ?e = "\<lparr>env_width = gridW, env_height = gridH, env_bpp = bpp, env_tileMode = 0,
             env_pitch = pitch, env_surfSize = surfSize,
             env_block_height = push_bit (unat size_range) 1, env_data = dat\<rparr>"
  let ?strip = "strip_row_padding ?P (?W * ?B) ?H dat"
  have S: "?S < 2 ^ 32"
    using unsigned_less [of surfSize, where ?'a = nat] by simp
  from fits have "unat gridW * unat bpp < 2 ^ LENGTH(32)"
    by simp
  then have n: "unat (gridW * bpp) = ?W * ?B"
    by (simp only: unat_mult_lem [THEN iffD1])
  have pitch_eq: "pitch = round_up (gridW * bpp) 32"
    using layout by (simp add: surface_layout_def Let_def)
  have "unat (gridW * bpp) \<le> unat (round_up (gridW * bpp) 32)"
    using fits n by (intro round_up_ge) simp_all
  with n pitch_eq have WB: "?W * ?B \<le> ?P"
    by simp
  have ok: "linear_env_ok ?e"
    using bpp WB surf input by (simp add: linear_env_ok_def)
  have run: "deswizzle w h blkWidth blkHeight bpp 0 align size_range dat
      = deswizzle_rows ?e 0 (replicate ?S 0)"
    using sr gw gh layout by (simp add: deswizzle_def Let_def not_le [symmetric])
  have "deswizzle_rows ?e 0 (replicate ?S 0) =
      Inr (take (unat (0 :: u32) * (unat (env_width ?e) * unat (env_bpp ?e))) (replicate ?S 0)
         @ strip_row_padding (unat (env_pitch ?e)) (unat (env_width ?e) * unat (env_bpp ?e)) ?H
             (drop (unat (0 :: u32) * unat (env_pitch ?e)) (env_data ?e))
         @ drop (unat (env_height ?e) * (unat (env_width ?e) * unat (env_bpp ?e))) (replicate ?S 0))"
    using ok by (rule deswizzle_rows_linear) simp_all
  then have res: "deswizzle_rows ?e 0 (replicate ?S 0)
      = Inr (?strip @ replicate (?S - ?H * (?W * ?B)) 0)"
    by simp
  have len: "length ?strip = ?H * (?W * ?B)"
    using WB input by (rule length_strip_row_padding)
  have "?H * (?W * ?B) \<le> ?H * ?P"
    using WB by (rule mult_le_mono2)
  also have "\<dots> = ?P * ?H"
    by (rule mult.commute)
  also note surf
  finally have HR: "?H * (?W * ?B) \<le> ?S" .
  from bpp have "0 < ?B"
    by (simp add: unat_gt_0)
  then have "?W * ?H \<le> (?W * ?H) * ?B"
    by simp
  then have "?W * ?H \<le> ?H * (?W * ?B)"
    by (simp only: mult_ac)
  then have WH: "?W * ?H \<le> ?S"
    using HR by (rule order_trans)
  have wh: "unat (gridW * gridH) = ?W * ?H"
    using WH S by (rule unat_mult_exact)
  have "unat (gridW * gridH) * ?B = ?H * (?W * ?B)"
    unfolding wh by (simp only: mult_ac)
  with HR have "unat (gridW * gridH) * ?B \<le> ?S"
    by (simp only:)
  then have "unat (gridW * gridH * bpp) = unat (gridW * gridH) * ?B"
    using S by (rule unat_mult_exact)
  then have size: "unat (gridW * gridH * bpp) = ?H * (?W * ?B)"
    unfolding wh by (simp only: mult_ac)
  have "truncate_result (?strip @ replicate (?S - ?H * (?W * ?B)) 0) (gridW * gridH * bpp) = ?strip"
    using len by (simp add: truncate_result_def size)
  with run res show ?thesis
    by simp
qed

theorem linear_deswizzle_strips_row_padding_witness:
  "\<exists>result.
     deswizzle 2 2 1 1 1 0 1 0 ([1, 2] @ replicate 30 0 @ [3, 4] @ replicate 30 0) = Inr result
     \<and> truncate_result result (2 * 2 * 1) = [1, 2, 3, 4]"
proof -
  let ?dat = "[1, 2] @ replicate 30 0 @ [3, 4] @ replicate 30 (0 :: u8)"
  have strip: "strip_row_padding (unat (32 :: u32)) (unat (2 :: u32) * unat (1 :: u32))
      (unat (2 :: u32)) ?dat = [1, 2, 3, 4]"
    by code_simp
  have "\<exists>result.
      deswizzle 2 2 1 1 1 0 1 0 ?dat = Inr result
      \<and> truncate_result result (2 * 2 * 1)
          = strip_row_padding (unat (32 :: u32)) (unat (2 :: u32) * unat (1 :: u32))
              (unat (2 :: u32)) ?dat"
    by (rule linear_deswizzle_strips_row_padding [where gridW = 2 and gridH = 2 and surfSize = 64])
      (simp_all add: DIV_ROUND_UP_def surface_layout_def round_up_def)
  then show ?thesis
    by (simp only: strip)
qed

text \<open>
  With alignment 0 the surface is empty and nothing is copied: the output of a 1 by 1
  texture of 4 bytes is empty, not the 4 bytes of its only row.
\<close>

theorem linear_deswizzle_counterexample:
  "deswizzle 1 1 1 1 4 0 0 0 ([1, 2, 3, 4] @ replicate 28 0) = Inr []
   \<and> strip_row_padding 32 4 1 ([1, 2, 3, 4] @ replicate 28 0) = [1, 2, 3, 4]
   \<and> truncate_result [] (1 * 1 * 4) \<noteq> strip_row_padding 32 4 1 ([1, 2, 3, 4] @ replicate 28 0)"
  by (simp add: surface_layout_def round_up_def deswizzle_def DIV_ROUND_UP_def
      deswizzle_rows.simps deswizzle_row.simps deswizzle_block_def source_pos_def
      memcpy_block_def truncate_result_def)

section \<open>What the loops leave untouched\<close>

lemma unat_add_le:
  fixes a b :: "'a::len word"
  shows "unat (a + b) \<le> unat a + unat b"
  by (simp add: unat_word_ariths)

lemma memcpy_block_tail:
  assumes "memcpy_block dst d src s n = Inr r" and "d + n \<le> k"
  shows "drop k r = drop k dst \<and> length r = length dst"
proof -
  from assms(1) have src: "s + n \<le> length src" and dst: "d + n \<le> length dst"
    and r: "r = take d dst @ take n (drop s src) @ drop (d + n) dst"
    by (simp_all add: memcpy_block_def split: if_splits)
  from src have blk: "length (take n (drop s src)) = n"
    by simp
  show ?thesis
    unfolding r using dst blk assms(2) by (simp only: blit_drop blit_length)
qed

lemma dst_pos_bound:
  fixes x y w h bpp :: u32
  assumes x: "x < w" and y: "y < h"
  shows "unat ((y * w + x) * bpp) + unat bpp \<le> unat w * unat h * unat bpp"
proof -
  from x y have X: "unat x < unat w" and Y: "unat y < unat h"
    by (simp_all add: word_less_nat_alt)
  have "unat (y * w + x) \<le> unat (y * w) + unat x"
    by (rule unat_add_le)
  also have "\<dots> \<le> unat y * unat w + unat x"
    by (simp add: unat_mult_le)
  finally have "unat (y * w + x) + 1 \<le> (unat y + 1) * unat w"
    using X by simp
  also have "\<dots> \<le> unat h * unat w"
    using Y by (intro mult_le_mono1) simp
  finally have cells: "unat (y * w + x) + 1 \<le> unat w * unat h"
    by (simp add: mult.commute)
  have "unat ((y * w + x) * bpp) + unat bpp \<le> unat (y * w + x) * unat bpp + unat bpp"
    by (simp add: unat_mult_le)
  also have "\<dots> = (unat (y * w + x) + 1) * unat bpp"
    by simp
  also have "\<dots> \<le> (unat w * unat h) * unat bpp"
    using cells by (rule mult_le_mono1)
  finally show ?thesis .
qed

lemma deswizzle_block_tail:
  assumes run: "deswizzle_block e x y result = Inr r"
    and x: "x < env_width e" and y: "y < env_height e"
  shows "drop (unat (env_width e) * unat (env_height e) * unat (env_bpp e)) r
      = drop (unat (env_width e) * unat (env_height e) * unat (env_bpp e)) result
    \<and> length r = length result"
proof -
  note b = dst_pos_bound [OF x y, of "env_bpp e"]
  from run show ?thesis
    by (auto simp: deswizzle_block_def Let_def split: sum.splits if_splits
        dest: memcpy_block_tail [OF _ b])
qed

lemma deswizzle_row_tail:
  assumes "deswizzle_row e y x result = Inr r" and "y < env_height e"
  shows "drop (unat (env_width e) * unat (env_height e) * unat (env_bpp e)) r
      = drop (unat (env_width e) * unat (env_height e) * unat (env_bpp e)) result
    \<and> length r = length result"
  using assms
proof (induction e y x result rule: deswizzle_row.induct)
  case (1 e y x result)
  show ?case
  proof (cases "x < env_width e")
    case False
    with "1.prems"(1) show ?thesis
      by (subst (asm) deswizzle_row.simps) simp
  next
    case True
    with "1.prems"(1) obtain r1 where blk: "deswizzle_block e x y result = Inr r1"
      and rest: "deswizzle_row e y (x + 1) r1 = Inr r"
      by (subst (asm) deswizzle_row.simps) (auto split: sum.splits)
    from "1.IH" [OF True blk rest "1.prems"(2)] deswizzle_block_tail [OF blk True "1.prems"(2)]
    show ?thesis
      by simp
  qed
qed

lemma deswizzle_rows_tail:
  assumes "deswizzle_rows e y result = Inr r"
  shows "drop (unat (env_width e) * unat (env_height e) * unat (env_bpp e)) r
      = drop (unat (env_width e) * unat (env_height e) * unat (env_bpp e)) result
    \<and> length r = length result"
  using assms
proof (induction e y result rule: deswizzle_rows.induct)
  case (1 e y result)
  show ?case
  proof (cases "y < env_height e")
    case False
    with "1.prems" show ?thesis
      by (subst (asm) deswizzle_rows.simps) simp
  next
    case True
    with "1.prems" obtain r1 where row: "deswizzle_row e y 0 result = Inr r1"
      and rest: "deswizzle_rows e (y + 1) r1 = Inr r"
      by (subst (asm) deswizzle_rows.simps) (auto split: sum.splits)
    from "1.IH" [OF True row rest] deswizzle_row_tail [OF row True]
    show ?thesis
      by simp
  qed
qed

lemma deswizzle_length:
  assumes run: "deswizzle w h blkWidth blkHeight bpp tm align size_range dat = Inr result"
    and gw: "DIV_ROUND_UP w blkWidth = Inr gridW"
    and gh: "DIV_ROUND_UP h blkHeight = Inr gridH"
  shows "length result
    = unat (snd (surface_layout tm gridW gridH bpp align (push_bit (unat size_range) 1)))"
proof -
  obtain pitch surfSize where
    layout: "surface_layout tm gridW gridH bpp align (push_bit (unat size_range) 1) = (pitch, surfSize)"
    by (cases "surface_layout tm gridW gridH bpp align (push_bit (unat size_range) 1)")
  let ?e = "\<lparr>env_width = gridW, env_height = gridH, env_bpp = bpp, env_tileMode = tm,
             env_pitch = pitch, env_surfSize = surfSize,
             env_block_height = push_bit (unat size_range) 1, env_data = dat\<rparr>"
  from run gw gh layout have "deswizzle_rows ?e 0 (replicate (unat surfSize) 0) = Inr result"
    by (simp add: deswizzle_def Let_def split: if_splits)
  from deswizzle_rows_tail [OF this] layout show ?thesis
    by simp
qed

text \<open>
  C10.  When \<open>gridW * gridH * bpp\<close> does not overflow \<open>u32\<close>, every byte of the
  output of \<open>deswizzle\<close> from index \<open>gridW * gridH * bpp\<close> on is zero, and the output
  is its cut to that size followed by zero bytes only.
\<close>

theorem deswizzle_zero_beyond_expected_size:
  assumes run: "deswizzle w h blkWidth blkHeight bpp tm align size_range dat = Inr result"
    and gw: "DIV_ROUND_UP w blkWidth = Inr gridW"
    and gh: "DIV_ROUND_UP h blkHeight = Inr gridH"
    and fits: "unat gridW * unat gridH * unat bpp < 2 ^ 32"
  shows "drop (unat (gridW * gridH * bpp)) result
      = replicate (length result - unat (gridW * gridH * bpp)) 0
    \<and> result = truncate_result result (gridW * gridH * bpp)
        @ replicate (length result - unat (gridW * gridH * bpp)) 0"
proof -
  let ?N = "unat gridW * unat gridH * unat bpp"
  obtain pitch surfSize where
    layout: "surface_layout tm gridW gridH bpp align (push_bit (unat size_range) 1) = (pitch, surfSize)"
    by (cases "surface_layout tm gridW gridH bpp align (push_bit (unat size_range) 1)")
  let ?e = "\<lparr>env_width = gridW, env_height = gridH, env_bpp = bpp, env_tileMode = tm,
             env_pitch = pitch, env_surfSize = surfSize,
             env_block_height = push_bit (unat size_range) 1, env_data = dat\<rparr>"
  from run gw gh layout have "deswizzle_rows ?e 0 (replicate (unat surfSize) 0) = Inr result"
    by (simp add: deswizzle_def Let_def split: if_splits)
  from deswizzle_rows_tail [OF this]
  have tail: "drop ?N result = replicate (unat surfSize - ?N) 0"
    and len: "length result = unat surfSize"
    by simp_all
  have size: "unat (gridW * gridH * bpp) = ?N"
  proof (cases "bpp = 0")
    case True
    then show ?thesis by simp
  next
    case False
    then have "0 < unat bpp"
      by (simp add: unat_gt_0)
    then have "unat gridW * unat gridH \<le> ?N"
      by simp
    with fits have wh: "unat (gridW * gridH) = unat gridW * unat gridH"
      by (intro unat_mult_exact [where m = ?N]) simp_all
    have "unat (gridW * gridH) * unat bpp \<le> ?N"
      by (simp only: wh)
    then have "unat (gridW * gridH * bpp) = unat (gridW * gridH) * unat bpp"
      using fits by (rule unat_mult_exact)
    then show ?thesis
      by (simp only: wh)
  qed
  have "result = take ?N result @ drop ?N result"
    by simp
  with tail len have split: "result = take ?N result @ replicate (length result - ?N) 0"
    by simp
  have "truncate_result result (gridW * gridH * bpp) @ replicate (length result - ?N) 0 = result"
  proof (cases "?N < length result")
    case True
    with split show ?thesis
      by (simp add: truncate_result_def size)
  next
    case False
    then show ?thesis
      by (simp add: truncate_result_def size)
  qed
  with tail len show ?thesis
    by (simp only: size)
qed

theorem deswizzle_zero_beyond_expected_size_witness:
  "deswizzle 8 12 4 4 8 1 512 0 (replicate 512 0xAA) = Inr (replicate 48 0xAA @ replicate 464 0)
   \<and> drop (unat (2 * 3 * 8 :: u32)) (replicate 48 0xAA @ replicate 464 (0 :: u8))
       = replicate (length (replicate 48 0xAA @ replicate 464 (0 :: u8)) - unat (2 * 3 * 8 :: u32)) 0"
proof -
  have run: "deswizzle 8 12 4 4 8 1 512 0 (replicate 512 0xAA)
      = Inr (replicate 48 0xAA @ replicate 464 0)"
    by code_simp
  from deswizzle_zero_beyond_expected_size [OF run, of 2 3] run show ?thesis
    by (simp add: DIV_ROUND_UP_def)
qed

section \<open>The surface size and the expected size\<close>

text \<open>
  C8, as amended.  When the alignment is not zero and the size computation does not
  wrap around (\<open>gridW * bpp + 64\<close> fits in 32 bits; in tiled mode
  \<open>size_range < 29\<close> and \<open>gridH + 8 * 2 ^ size_range\<close> fits; the pitch times the
  padded number of rows, plus the alignment, fits), the surface size is at least
  \<open>gridW * gridH * bpp\<close>.  The surface size is the length of the vector that
  \<open>deswizzle\<close> returns (\<open>deswizzle_length\<close>).
\<close>

theorem surface_size_covers_expected:
  fixes gridW gridH bpp tileMode align size_range :: u32
  assumes layout: "surface_layout tileMode gridW gridH bpp align (push_bit (unat size_range) 1)
      = (pitch, surfSize)"
    and rows: "rows = (if tileMode = 0 then gridH
                       else round_up gridH (push_bit (unat size_range) 1 * 8))"
    and pitch_fits: "unat gridW * unat bpp + 64 \<le> 2 ^ 32"
    and rows_fit: "tileMode \<noteq> 0 \<Longrightarrow> size_range < 29 \<and> unat gridH + 8 * 2 ^ unat size_range \<le> 2 ^ 32"
    and align: "align \<noteq> 0"
    and total_fits: "unat pitch * unat rows + unat align \<le> 2 ^ 32"
  shows "unat (gridW * gridH * bpp) \<le> unat surfSize"
proof -
  let ?n = "gridW * bpp"
  from pitch_fits have "unat gridW * unat bpp < 2 ^ LENGTH(32)"
    by simp
  then have n: "unat ?n = unat gridW * unat bpp"
    by (simp only: unat_mult_lem [THEN iffD1])
  have pitch_eq: "pitch = round_up ?n (if tileMode = 0 then 32 else 64)"
    using layout by (simp add: surface_layout_def Let_def split: if_splits)
  have "unat ?n \<le> unat pitch"
    unfolding pitch_eq using pitch_fits n
    by (intro round_up_ge) (simp_all split: if_splits)
  with n have pitch_ge: "unat gridW * unat bpp \<le> unat pitch"
    by simp
  have rows_ge: "unat gridH \<le> unat rows"
  proof (cases "tileMode = 0")
    case True
    with rows show ?thesis by simp
  next
    case False
    with rows_fit have sr: "size_range < 29" and fit: "unat gridH + 8 * 2 ^ unat size_range \<le> 2 ^ 32"
      by simp_all
    have u: "unat (push_bit (unat size_range) 1 * 8 :: u32) = 8 * 2 ^ unat size_range"
      using sr by (rule unat_block_height8)
    then have "push_bit (unat size_range) 1 * 8 \<noteq> (0 :: u32)"
      by (metis mult_eq_0_iff power_eq_0_iff unat_0 zero_neq_numeral)
    moreover have "unat gridH + unat (push_bit (unat size_range) 1 * 8 :: u32) \<le> 2 ^ 32"
      using fit u by simp
    ultimately have "unat gridH \<le> unat (round_up gridH (push_bit (unat size_range) 1 * 8))"
      by (rule round_up_ge)
    with False rows show ?thesis by simp
  qed
  have surf_eq: "surfSize = round_up (pitch * rows) align"
    using layout rows by (auto simp add: surface_layout_def Let_def split: if_splits)
  from align have "0 < unat align"
    by (simp add: unat_gt_0)
  with total_fits have "unat pitch * unat rows < 2 ^ LENGTH(32)"
    by simp
  then have total: "unat (pitch * rows) = unat pitch * unat rows"
    by (simp only: unat_mult_lem [THEN iffD1])
  have "unat (pitch * rows) \<le> unat surfSize"
    unfolding surf_eq using align total_fits total
    by (intro round_up_ge) simp_all
  with total have surf_ge: "unat pitch * unat rows \<le> unat surfSize"
    by simp
  have "unat (gridW * gridH * bpp) \<le> unat (gridW * gridH) * unat bpp"
    by (rule unat_mult_le)
  also have "\<dots> \<le> (unat gridW * unat gridH) * unat bpp"
    by (intro mult_le_mono1 unat_mult_le)
  also have "\<dots> = (unat gridW * unat bpp) * unat gridH"
    by (simp add: mult_ac)
  also have "\<dots> \<le> unat pitch * unat rows"
    using pitch_ge rows_ge by (rule mult_le_mono)
  also note surf_ge
  finally show ?thesis .
qed

theorem surface_size_covers_expected_witness:
  "unat (2 * 3 * 8 :: u32) \<le> unat (512 :: u32)
   \<and> surface_layout 1 2 3 8 512 (push_bit (unat (0 :: u32)) 1) = (64, 512)"
  using surface_size_covers_expected [of 1 2 3 8 512 0 64 512 8]
  by (simp add: surface_layout_def round_up_def)

text \<open>
  With alignment 0 the surface size is 0, whatever the grid: a 4 by 4 texture of one
  BC1 block (8 bytes) gets an empty surface.
\<close>

theorem surface_size_counterexample:
  "surface_layout 0 1 1 8 0 (push_bit (unat (0 :: u32)) 1) = (32, 0)
   \<and> deswizzle 4 4 4 4 8 0 0 0 (replicate 32 1) = Inr []
   \<and> \<not> unat (1 * 1 * 8 :: u32) \<le> unat (0 :: u32)"
  by (simp add: surface_layout_def round_up_def deswizzle_def DIV_ROUND_UP_def
      deswizzle_rows.simps deswizzle_row.simps deswizzle_block_def source_pos_def
      memcpy_block_def)

section \<open>A payload shorter than the surface\<close>

text \<open>
  C1.  The guard of the copy compares the source offset with the size of the
  destination and the destination offset with the size of the source.  A payload that
  holds the compact blocks and not the padded surface passes the guard and is read
  past its end: a linear 1 by 2 texture of 4-byte texels with a payload of 8 bytes at
  block \<open>(0, 1)\<close> (source offset 32), and a block-linear 8 by 12 BC1 texture with a
  payload of 48 bytes at block \<open>(0, 2)\<close> (source offset 64).  The first is what
  \<open>saveTextures\<close> passes for a parsed texture of format \<open>0x0b01\<close>.
\<close>

theorem deswizzle_truncated_payload_faults:
  "deswizzle 1 2 1 1 4 0 512 0 (replicate 8 0xAA) = Inl ReadOutOfBounds
   \<and> deswizzle 8 12 4 4 8 1 512 0 (replicate 48 0xAA) = Inl ReadOutOfBounds
   \<and> save_texture (\<lambda>outName. True) ''out''
        \<lparr>name = [0x54], width = 1, height = 2, format = 0x0b01, tileMode = 0,
         sizeRange = 0, alignment = 512, imageSize = 8, data = replicate 8 0xAA\<rparr>
       = Inl ReadOutOfBounds"
  by code_simp

section \<open>The DDS header\<close>

lemma fourcc_of_table: "fourcc_of fmt = map_of fourcc_table fmt"
  by (simp add: fourcc_of_def fourcc_table_def)

lemma length_le32: "length (le32 v) = 4"
  by (simp add: le32_def)

lemma length_fourcc:
  assumes "fourcc_of fmt = Some s"
  shows "length (bytes_of s) = 4"
  using assms by (auto simp: fourcc_of_def bytes_of_def split: if_splits)

lemma length_store:
  assumes "off + length bs \<le> length header"
  shows "length (store header off bs) = length header"
  using assms by (simp add: store_def)

lemma window_store_same:
  assumes "off + length bs \<le> length header" and "n = length bs"
  shows "take n (drop off (store header off bs)) = bs"
  using assms by (simp add: store_def)

lemma window_store_other:
  assumes "off' + length bs \<le> length header" and "off' + length bs \<le> off \<or> off + n \<le> off'"
  shows "take n (drop off (store header off' bs)) = take n (drop off header)"
proof -
  from assms(2) show ?thesis
  proof
    assume "off' + length bs \<le> off"
    with assms(1) show ?thesis
      by (simp add: store_def)
  next
    assume "off + n \<le> off'"
    with assms(1) show ?thesis
      by (simp add: store_def drop_take)
  qed
qed

lemma header_before_fourcc:
  "length (header_before_fourcc w h sz) = 128"
  "take 4 (drop 84 (header_before_fourcc w h sz)) = replicate 4 0"
  unfolding header_before_fourcc_def
  by (simp_all add: length_store window_store_other length_le32 bytes_of_def)

lemma generateDDSHeader_stores:
  "generateDDSHeader w h fmt sz =
     store (case fourcc_of fmt of
              None \<Rightarrow> header_before_fourcc w h sz
            | Some fourcc \<Rightarrow> store (header_before_fourcc w h sz) 84 (bytes_of fourcc))
       108 (le32 0x1000)"
  by (simp only: generateDDSHeader_def header_before_fourcc_def Let_def)

lemma generateDDSHeader_length: "length (generateDDSHeader w h fmt sz) = 128"
  by (cases "fourcc_of fmt")
    (simp_all add: generateDDSHeader_stores length_store header_before_fourcc length_le32
      length_fourcc)

lemma generateDDSHeader_fourcc:
  "take 4 (drop 84 (generateDDSHeader w h fmt sz))
     = (case map_of fourcc_table fmt of None \<Rightarrow> replicate 4 0 | Some s \<Rightarrow> bytes_of s)"
  by (cases "fourcc_of fmt")
    (simp_all add: generateDDSHeader_stores length_store header_before_fourcc length_le32
      length_fourcc window_store_other window_store_same fourcc_of_table [symmetric])

text \<open>
  C9.  The header has 128 bytes.  Bytes 84 to 87 are the FourCC that the table gives
  for the format code, and zero for a code that is not in the table.  For width 256,
  height 256, format code \<open>0x1c\<close> and linear size 65536 the header starts with
  "DDS ", holds 124 at offset 4, 256 at offsets 12 and 16, 65536 at offset 20, and
  "DXT5" at offset 84.
\<close>

theorem dds_header_fields:
  "length (generateDDSHeader w h fmt sz) = 128
   \<and> take 4 (drop 84 (generateDDSHeader w h fmt sz))
       = (case map_of fourcc_table fmt of None \<Rightarrow> replicate 4 0 | Some s \<Rightarrow> bytes_of s)
   \<and> take 4 (generateDDSHeader 256 256 0x1c 65536) = bytes_of ''DDS ''
   \<and> Read32LE (generateDDSHeader 256 256 0x1c 65536) 4 = Inr 124
   \<and> Read32LE (generateDDSHeader 256 256 0x1c 65536) 12 = Inr 256
   \<and> Read32LE (generateDDSHeader 256 256 0x1c 65536) 16 = Inr 256
   \<and> Read32LE (generateDDSHeader 256 256 0x1c 65536) 20 = Inr 65536
   \<and> take 4 (drop 84 (generateDDSHeader 256 256 0x1c 65536)) = bytes_of ''DXT5''"
proof -
  have len: "length (generateDDSHeader w h fmt sz) = 128"
    by (rule generateDDSHeader_length)
  have fourcc: "take 4 (drop 84 (generateDDSHeader w h fmt sz))
      = (case map_of fourcc_table fmt of None \<Rightarrow> replicate 4 0 | Some s \<Rightarrow> bytes_of s)"
    by (rule generateDDSHeader_fourcc)
  have "take 4 (generateDDSHeader 256 256 0x1c 65536) = bytes_of ''DDS ''"
    by code_simp
  moreover have "Read32LE (generateDDSHeader 256 256 0x1c 65536) 4 = Inr 124"
    by code_simp
  moreover have "Read32LE (generateDDSHeader 256 256 0x1c 65536) 12 = Inr 256"
    by code_simp
  moreover have "Read32LE (generateDDSHeader 256 256 0x1c 65536) 16 = Inr 256"
    by code_simp
  moreover have "Read32LE (generateDDSHeader 256 256 0x1c 65536) 20 = Inr 65536"
    by code_simp
  moreover have "take 4 (drop 84 (generateDDSHeader 256 256 0x1c 65536)) = bytes_of ''DXT5''"
    by code_simp
  ultimately show ?thesis
    using len fourcc by (simp only: simp_thms)
qed

section \<open>The key of the format tables\<close>

lemma format_key_drop_bit: "format_key fmt = drop_bit 8 fmt"
  by (simp add: format_key_def drop_bit_eq_div word_arith_nat_div)

lemma save_texture_format:
  assumes "format_key fmt' = format_key (format tex)"
  shows "save_texture can_create outputDir (tex\<lparr>format := fmt'\<rparr>) = save_texture can_create outputDir tex"
  using assms
  by (simp add: save_texture_def formatType_of_def format_key_drop_bit Let_def
      cong: option.case_cong prod.case_cong)

lemma save_texture_file:
  assumes "save_texture can_create outputDir tex = Inr (log, (outName, bytes) # files)"
  shows "\<exists>blkWidth blkHeight bpp w h result.
      format_params (format_key (format tex)) = Some (blkWidth, blkHeight, bpp)
    \<and> DIV_ROUND_UP (width tex) blkWidth = Inr w
    \<and> DIV_ROUND_UP (height tex) blkHeight = Inr h
    \<and> deswizzle (width tex) (height tex) blkWidth blkHeight bpp (tileMode tex)
        (alignment tex) (sizeRange tex) (data tex) = Inr result
    \<and> bytes = generateDDSHeader (width tex) (height tex) (format_key (format tex)) (w * h * bpp)
        @ truncate_result result (w * h * bpp)"
proof (cases "format_params (format_key (format tex))")
  case None
  with assms show ?thesis
    by (simp add: save_texture_def formatType_of_def format_key_drop_bit)
next
  case (Some params)
  obtain blkWidth blkHeight bpp where params: "params = (blkWidth, blkHeight, bpp)"
    by (cases params)
  from assms Some params obtain w h result
    where "DIV_ROUND_UP (width tex) blkWidth = Inr w"
      and "DIV_ROUND_UP (height tex) blkHeight = Inr h"
      and "deswizzle (width tex) (height tex) blkWidth blkHeight bpp (tileMode tex)
        (alignment tex) (sizeRange tex) (data tex) = Inr result"
      and "bytes = generateDDSHeader (width tex) (height tex) (format_key (format tex)) (w * h * bpp)
        @ truncate_result result (w * h * bpp)"
    by (auto simp: save_texture_def formatType_of_def format_key_drop_bit bindf_eq_Inr Let_def
        split: if_splits)
  with Some params show ?thesis
    by blast
qed

text \<open>
  C7, as amended.  The key with which \<open>saveTextures\<close> looks a texture up in the
  format tables is the raw format field shifted right by 8 bits, that is the field
  divided by 256: all of its bits above the lowest byte.  Whenever an iteration writes
  a file, the block dimensions and the bytes per block passed to \<open>deswizzle\<close> are the
  table entries for that key, the header is generated for that key, and bytes 84 to 87
  of the file are the FourCC of that key.  The lowest byte of the format field has no
  influence on what the iteration does.
\<close>

theorem format_key_is_format_shifted:
  "(\<forall>log outName bytes files.
       save_texture can_create outputDir tex = Inr (log, (outName, bytes) # files) \<longrightarrow>
       (\<exists>blkWidth blkHeight bpp w h result.
           format_params (format_key (format tex)) = Some (blkWidth, blkHeight, bpp)
         \<and> DIV_ROUND_UP (width tex) blkWidth = Inr w
         \<and> DIV_ROUND_UP (height tex) blkHeight = Inr h
         \<and> deswizzle (width tex) (height tex) blkWidth blkHeight bpp (tileMode tex)
             (alignment tex) (sizeRange tex) (data tex) = Inr result
         \<and> bytes = generateDDSHeader (width tex) (height tex) (format_key (format tex))
                     (w * h * bpp)
                   @ truncate_result result (w * h * bpp))
       \<and> take 4 (drop 84 bytes)
           = (case map_of fourcc_table (format_key (format tex)) of
                None \<Rightarrow> replicate 4 0 | Some s \<Rightarrow> bytes_of s))
   \<and> (\<forall>fmt'. format_key fmt' = format_key (format tex) \<longrightarrow>
         save_texture can_create outputDir (tex\<lparr>format := fmt'\<rparr>)
           = save_texture can_create outputDir tex)"
proof (intro conjI allI impI)
  fix log outName bytes files
  assume run: "save_texture can_create outputDir tex = Inr (log, (outName, bytes) # files)"
  from save_texture_file [OF run]
  show written: "\<exists>blkWidth blkHeight bpp w h result.
           format_params (format_key (format tex)) = Some (blkWidth, blkHeight, bpp)
         \<and> DIV_ROUND_UP (width tex) blkWidth = Inr w
         \<and> DIV_ROUND_UP (height tex) blkHeight = Inr h
         \<and> deswizzle (width tex) (height tex) blkWidth blkHeight bpp (tileMode tex)
             (alignment tex) (sizeRange tex) (data tex) = Inr result
         \<and> bytes = generateDDSHeader (width tex) (height tex) (format_key (format tex))
                     (w * h * bpp)
                   @ truncate_result result (w * h * bpp)" .
  then obtain sz payload
    where "bytes = generateDDSHeader (width tex) (height tex) (format_key (format tex)) sz
      @ payload"
    by blast
  then show "take 4 (drop 84 bytes)
      = (case map_of fourcc_table (format_key (format tex)) of
           None \<Rightarrow> replicate 4 0 | Some s \<Rightarrow> bytes_of s)"
    by (simp add: generateDDSHeader_length generateDDSHeader_fourcc)
next
  fix fmt'
  assume "format_key fmt' = format_key (format tex)"
  then show "save_texture can_create outputDir (tex\<lparr>format := fmt'\<rparr>)
      = save_texture can_create outputDir tex"
    by (rule save_texture_format)
qed

text \<open>
  A linear 4 by 4 texture of format \<open>0x1a01\<close> is written as a BC1 file with the
  FourCC "DXT1"; with the format \<open>0x1aff\<close> the file is the same.
\<close>

theorem format_key_is_format_shifted_witness:
  "save_texture (\<lambda>outName. True) ''out''
       \<lparr>name = [0x54], width = 4, height = 4, format = 0x1a01, tileMode = 0,
        sizeRange = 0, alignment = 512, imageSize = 8, data = [1, 2, 3, 4, 5, 6, 7, 8]\<rparr>
     = Inr ([], [(bytes_of ''out/T.dds'',
                  generateDDSHeader 4 4 0x1a 8 @ [1, 2, 3, 4, 5, 6, 7, 8])])
   \<and> format_key 0x1a01 = 0x1a
   \<and> format_params 0x1a = Some (4, 4, 8)
   \<and> take 4 (drop 84 (generateDDSHeader 4 4 0x1a 8 @ [1, 2, 3, 4, 5, 6, 7, 8 :: u8]))
       = bytes_of ''DXT1''
   \<and> save_texture (\<lambda>outName. True) ''out''
       \<lparr>name = [0x54], width = 4, height = 4, format = 0x1aff, tileMode = 0,
        sizeRange = 0, alignment = 512, imageSize = 8, data = [1, 2, 3, 4, 5, 6, 7, 8]\<rparr>
     = Inr ([], [(bytes_of ''out/T.dds'',
                  generateDDSHeader 4 4 0x1a 8 @ [1, 2, 3, 4, 5, 6, 7, 8])])"
proof -
  let ?tex = "\<lparr>name = [0x54], width = 4, height = 4, format = 0x1a01, tileMode = 0,
      sizeRange = 0, alignment = 512, imageSize = 8, data = [1, 2, 3, 4, 5, 6, 7, 8 :: u8]\<rparr>"
  let ?bytes = "generateDDSHeader 4 4 0x1a 8 @ [1, 2, 3, 4, 5, 6, 7, 8 :: u8]"
  have run: "save_texture (\<lambda>outName. True) ''out'' ?tex
      = Inr ([], [(bytes_of ''out/T.dds'', ?bytes)])"
    by code_simp
  have key: "format_key 0x1a01 = 0x1a" and key': "format_key 0x1aff = format_key 0x1a01"
    by (simp_all add: format_key_def)
  have params: "format_params 0x1a = Some (4, 4, 8)"
    and entry: "map_of fourcc_table 0x1a = Some ''DXT1''"
    by (simp_all add: format_params_def formats_def blkDims_def bpps_def fourcc_table_def)
  have sel: "format ?tex = 0x1a01"
    by simp
  note written = format_key_is_format_shifted
    [of "\<lambda>outName. True" "''out''" ?tex, THEN conjunct1, rule_format, OF run, THEN conjunct2]
  then have fourcc: "take 4 (drop 84 ?bytes) = bytes_of ''DXT1''"
    by (simp only: sel key entry option.case)
  note low_byte = format_key_is_format_shifted
    [of "\<lambda>outName. True" "''out''" ?tex, THEN conjunct2, rule_format, of "0x1aff"]
  have upd: "?tex\<lparr>format := 0x1aff\<rparr>
      = \<lparr>name = [0x54], width = 4, height = 4, format = 0x1aff, tileMode = 0,
         sizeRange = 0, alignment = 512, imageSize = 8, data = [1, 2, 3, 4, 5, 6, 7, 8 :: u8]\<rparr>"
    by simp
  from key' have "format_key 0x1aff = format_key (format ?tex)"
    by (simp only: sel)
  then have "save_texture (\<lambda>outName. True) ''out'' (?tex\<lparr>format := 0x1aff\<rparr>)
      = save_texture (\<lambda>outName. True) ''out'' ?tex"
    by (rule low_byte)
  then have run': "save_texture (\<lambda>outName. True) ''out''
       \<lparr>name = [0x54], width = 4, height = 4, format = 0x1aff, tileMode = 0,
        sizeRange = 0, alignment = 512, imageSize = 8, data = [1, 2, 3, 4, 5, 6, 7, 8]\<rparr>
     = Inr ([], [(bytes_of ''out/T.dds'', ?bytes)])"
    by (simp only: upd run)
  from run key params fourcc run' show ?thesis
    by (simp only: simp_thms)
qed

text \<open>
  The format field \<open>0x1a01\<close> has the key \<open>0x1a\<close> (BC1), and the texture is
  written with the header of that key.  The most significant byte of the field is 0,
  for which \<open>formats\<close> has no entry.
\<close>

theorem format_key_counterexample:
  "save_texture (\<lambda>outName. True) ''out''
       \<lparr>name = [0x54], width = 4, height = 4, format = 0x1a01, tileMode = 0,
        sizeRange = 0, alignment = 512, imageSize = 8, data = [1, 2, 3, 4, 5, 6, 7, 8]\<rparr>
     = Inr ([], [(bytes_of ''out/T.dds'',
                  generateDDSHeader 4 4 0x1a 8 @ [1, 2, 3, 4, 5, 6, 7, 8])])
   \<and> formatType_of \<lparr>name = [0x54], width = 4, height = 4, format = 0x1a01, tileMode = 0,
        sizeRange = 0, alignment = 512, imageSize = 8, data = [1, 2, 3, 4, 5, 6, 7, 8]\<rparr> = 0x1a
   \<and> drop_bit 24 (0x1a01 :: u32) = 0
   \<and> map_of formats (0x1a :: u32) = Some ''BC1''
   \<and> map_of formats (0 :: u32) = None
   \<and> take 4 (drop 84 (generateDDSHeader 4 4 0x1a 8)) = bytes_of ''DXT1''"
  by code_simp

section \<open>The parser\<close>

lemma uint_eq_sint:
  fixes a :: i64
  assumes "\<not> sint a < 0"
  shows "uint a = sint a"
proof -
  have "sint a < 2 ^ 63"
    using sint_lt [of a] by simp
  with assms have "take_bit 64 (sint a) = sint a"
    by (simp add: take_bit_int_eq_self)
  then show ?thesis
    using uint_sint [of a] by simp
qed

lemma unat_data_end:
  fixes dataAddr :: i64 and imageSize' :: u32
  assumes "\<not> sint dataAddr < 0"
  shows "unat (dataAddr + ucast imageSize') = unat dataAddr + unat imageSize'"
proof -
  have "sint dataAddr < 2 ^ 63"
    using sint_lt [of dataAddr] by simp
  with uint_eq_sint [OF assms] have "uint dataAddr < 2 ^ 63"
    by simp
  then have a: "unat dataAddr < 2 ^ 63"
    unfolding uint_nat by (simp only: of_nat_less_numeral_power_cancel_iff)
  have b: "unat imageSize' < 2 ^ 32"
    using unsigned_less [of imageSize', where ?'a = nat] by simp
  have c: "unat (ucast imageSize' :: i64) = unat imageSize'"
    using b by (simp add: unsigned_ucast_eq take_bit_nat_eq_self)
  from a b have "unat dataAddr + unat (ucast imageSize' :: i64) < 2 ^ LENGTH(64)"
    unfolding c by simp
  then show ?thesis
    by (simp only: unat_add_lem [THEN iffD1] c)
qed


lemma memcmp_differs_Inr:
  assumes "length lit = 4"
  shows "memcmp_differs f off lit = Inr b \<longleftrightarrow>
     off + 4 \<le> length f \<and> b = (take 4 (drop off f) \<noteq> bytes_of lit)"
  using assms by (auto simp: memcmp_differs_def)


text \<open>The four ways in which an iteration ends without a fault.\<close>

lemma parse_texture_cases:
  assumes "parse_texture f infoPtrAddr i = Inr r"
  obtains
    (bad_info) a where "read_texInfoAddr f infoPtrAddr i = Inr a"
      and "sint a < 0 \<or> int (length f) \<le> sint a" and "r = Inl InvalidTexInfoAddress"
  | (bad_magic) a where "read_texInfoAddr f infoPtrAddr i = Inr a"
      and "\<not> (sint a < 0 \<or> int (length f) \<le> sint a)"
      and "take 4 (drop (unat (ucast a :: u32)) f) \<noteq> bytes_of ''BRTI''"
      and "r = Inl InvalidBRTIMagic"
  | (bad_data) a b d where "read_texInfoAddr f infoPtrAddr i = Inr a"
      and "\<not> (sint a < 0 \<or> int (length f) \<le> sint a)"
      and "take 4 (drop (unat (ucast a :: u32)) f) = bytes_of ''BRTI''"
      and "read_BRTI f (ucast a) = Inr b"
      and "Read64LE_Signed f (unat (brti_ptrsAddr b)) = Inr d"
      and "sint d < 0 \<or> length f < unat (d + ucast (brti_imageSize b))"
      and "r = Inl InvalidDataAddress"
  | (parsed) a b d where "read_texInfoAddr f infoPtrAddr i = Inr a"
      and "\<not> (sint a < 0 \<or> int (length f) \<le> sint a)"
      and "take 4 (drop (unat (ucast a :: u32)) f) = bytes_of ''BRTI''"
      and "read_BRTI f (ucast a) = Inr b"
      and "Read64LE_Signed f (unat (brti_ptrsAddr b)) = Inr d"
      and "\<not> (sint d < 0 \<or> length f < unat (d + ucast (brti_imageSize b)))"
      and "r = Inr \<lparr>name = brti_name b, width = brti_width b, height = brti_height b,
            format = brti_format b, tileMode = ucast (brti_tileMode b),
            sizeRange = brti_sizeRange b, alignment = brti_alignment b,
            imageSize = brti_imageSize b,
            data = take (unat (brti_imageSize b)) (drop (unat d) f)\<rparr>"
proof -
  from assms obtain a where a: "read_texInfoAddr f infoPtrAddr i = Inr a"
    and rest: "(if sint a < 0 \<or> int (length f) \<le> sint a
      then Inr (Inl InvalidTexInfoAddress)
      else
       let pos = (ucast a :: u32) in
       bindf (memcmp_differs f (unat pos) ''BRTI'') (\<lambda>bad_magic.
       if bad_magic then Inr (Inl InvalidBRTIMagic)
       else
         bindf (read_BRTI f pos) (\<lambda>r.
         bindf (Read64LE_Signed f (unat (brti_ptrsAddr r))) (\<lambda>dataAddr.
         if sint dataAddr < 0 \<or> length f < unat (dataAddr + ucast (brti_imageSize r))
         then Inr (Inl InvalidDataAddress)
         else Inr (Inr
           \<lparr>name = brti_name r, width = brti_width r, height = brti_height r,
            format = brti_format r, tileMode = ucast (brti_tileMode r),
            sizeRange = brti_sizeRange r, alignment = brti_alignment r,
            imageSize = brti_imageSize r,
            data = take (unat (brti_imageSize r)) (drop (unat dataAddr) f)\<rparr>))))) = Inr r"
    unfolding parse_texture_def bindf_eq_Inr by blast
  show thesis
  proof (cases "sint a < 0 \<or> int (length f) \<le> sint a")
    case True
    with rest have "r = Inl InvalidTexInfoAddress"
      by auto
    with a True show thesis
      by (rule bad_info)
  next
    case False
    with rest obtain m where m: "memcmp_differs f (unat (ucast a :: u32)) ''BRTI'' = Inr m"
      and rest2: "(if m then Inr (Inl InvalidBRTIMagic)
       else
         bindf (read_BRTI f (ucast a)) (\<lambda>r.
         bindf (Read64LE_Signed f (unat (brti_ptrsAddr r))) (\<lambda>dataAddr.
         if sint dataAddr < 0 \<or> length f < unat (dataAddr + ucast (brti_imageSize r))
         then Inr (Inl InvalidDataAddress)
         else Inr (Inr
           \<lparr>name = brti_name r, width = brti_width r, height = brti_height r,
            format = brti_format r, tileMode = ucast (brti_tileMode r),
            sizeRange = brti_sizeRange r, alignment = brti_alignment r,
            imageSize = brti_imageSize r,
            data = take (unat (brti_imageSize r)) (drop (unat dataAddr) f)\<rparr>)))) = Inr r"
      by (simp only: if_False Let_def bindf_eq_Inr) blast
    from m have mm: "m = (take 4 (drop (unat (ucast a :: u32)) f) \<noteq> bytes_of ''BRTI'')"
      by (simp add: memcmp_differs_Inr)
    show thesis
    proof (cases m)
      case True
      with rest2 have "r = Inl InvalidBRTIMagic"
        by auto
      with a False True mm show thesis
        by (intro bad_magic) simp_all
    next
      case nm: False
      with rest2 obtain b d where b: "read_BRTI f (ucast a) = Inr b"
        and d: "Read64LE_Signed f (unat (brti_ptrsAddr b)) = Inr d"
        and rest3: "(if sint d < 0 \<or> length f < unat (d + ucast (brti_imageSize b))
         then Inr (Inl InvalidDataAddress)
         else Inr (Inr
           \<lparr>name = brti_name b, width = brti_width b, height = brti_height b,
            format = brti_format b, tileMode = ucast (brti_tileMode b),
            sizeRange = brti_sizeRange b, alignment = brti_alignment b,
            imageSize = brti_imageSize b,
            data = take (unat (brti_imageSize b)) (drop (unat d) f)\<rparr>))
          = (Inr r :: fault + (diag + BNTXTexture))"
        by (simp only: if_False bindf_eq_Inr) blast
      from nm mm have magic: "take 4 (drop (unat (ucast a :: u32)) f) = bytes_of ''BRTI''"
        by simp
      show thesis
      proof (cases "sint d < 0 \<or> length f < unat (d + ucast (brti_imageSize b))")
        case True
        with rest3 have "r = Inl InvalidDataAddress"
          by auto
        with a False magic b d True show thesis
          by (intro bad_data)
      next
        case nd: False
        with rest3 have "r = Inr \<lparr>name = brti_name b, width = brti_width b, height = brti_height b,
            format = brti_format b, tileMode = ucast (brti_tileMode b),
            sizeRange = brti_sizeRange b, alignment = brti_alignment b,
            imageSize = brti_imageSize b,
            data = take (unat (brti_imageSize b)) (drop (unat d) f)\<rparr>"
          by auto
        with a False magic b d nd show thesis
          by (intro parsed)
      qed
    qed
  qed
qed



lemma parse_texture_payload:
  assumes "parse_texture f infoPtrAddr i = Inr (Inr tex)"
  shows "length (data tex) = unat (imageSize tex)"
  using assms
proof (cases rule: parse_texture_cases)
  case (parsed a b d)
  from parsed(6) have nd: "\<not> sint d < 0"
    and le: "\<not> length f < unat (d + ucast (brti_imageSize b))"
    by simp_all
  from le have "unat d + unat (brti_imageSize b) \<le> length f"
    by (simp only: unat_data_end [OF nd] not_less)
  with parsed(7) show ?thesis
    by simp
qed simp_all

lemma parse_texture_diag:
  assumes "parse_texture f infoPtrAddr i = Inr (Inl d)"
  shows "d \<notin> fatal_diags"
  using assms by (cases rule: parse_texture_cases) (simp_all add: fatal_diags_def)

lemma parse_textures_result:
  assumes "parse_textures f infoPtrAddr texCount i acc = Inr res"
  shows "res = (fst acc @ concat (map (\<lambda>k. skipped_at f infoPtrAddr (of_nat k)) [unat i..<unat texCount]),
                snd acc @ concat (map (\<lambda>k. parsed_at f infoPtrAddr (of_nat k)) [unat i..<unat texCount]))
    \<and> (\<forall>k. unat i \<le> k \<and> k < unat texCount
          \<longrightarrow> (\<exists>r. parse_texture f infoPtrAddr (of_nat k) = Inr r))"
  using assms
proof (induction f infoPtrAddr texCount i acc rule: parse_textures.induct)
  case (1 f infoPtrAddr texCount i acc)
  show ?case
  proof (cases "i < texCount")
    case False
    then have "unat texCount \<le> unat i"
      by (simp add: word_less_nat_alt)
    with False "1.prems" show ?thesis
      by (subst (asm) parse_textures.simps) auto
  next
    case True
    then have lt: "unat i < unat texCount"
      by (simp add: word_less_nat_alt)
    have i1: "unat (i + 1) = Suc (unat i)"
      using True by (rule unat_Suc_of_less)
    have upt: "[unat i..<unat texCount] = unat i # [unat (i + 1)..<unat texCount]"
      using lt by (simp add: i1 upt_conv_Cons)
    have self: "(of_nat (unat i) :: u32) = i"
      by simp
    from True "1.prems" obtain r where r: "parse_texture f infoPtrAddr i = Inr r"
      by (subst (asm) parse_textures.simps) (auto split: sum.splits)
    have later: "\<exists>r. parse_texture f infoPtrAddr (of_nat k) = Inr r"
      if ih: "\<forall>k. unat (i + 1) \<le> k \<and> k < unat texCount
          \<longrightarrow> (\<exists>r. parse_texture f infoPtrAddr (of_nat k) = Inr r)"
        and k: "unat i \<le> k \<and> k < unat texCount" for k
    proof (cases "k = unat i")
      case True
      with r self show ?thesis by simp
    next
      case False
      with k i1 have "unat (i + 1) \<le> k \<and> k < unat texCount"
        by simp
      with ih show ?thesis by blast
    qed
    show ?thesis
    proof (cases r)
      case (Inl d)
      with True r "1.prems"
      have "parse_textures f infoPtrAddr texCount (i + 1) (fst acc @ [d], snd acc) = Inr res"
        by (subst (asm) parse_textures.simps) simp
      from "1.IH"(1) [OF True r Inl this] later Inl r show ?thesis
        by (simp add: upt skipped_at_def parsed_at_def)
    next
      case (Inr tex)
      with True r "1.prems"
      have "parse_textures f infoPtrAddr texCount (i + 1) (fst acc, snd acc @ [tex]) = Inr res"
        by (subst (asm) parse_textures.simps) simp
      from "1.IH"(2) [OF True r Inr this] later Inr r show ?thesis
        by (simp add: upt skipped_at_def parsed_at_def)
    qed
  qed
qed







text \<open>The two ways in which \<open>parseBNTX\<close> returns.\<close>

lemma parseBNTX_cases:
  assumes "parseBNTX f = Inr (log, textures)"
  obtains
    (fatal) d where "spec_fatal f" and "d \<in> fatal_diags" and "log = [d]" and "textures = []"
  | (walked) texCount infoPtrAddr where "\<not> spec_fatal f"
      and "parse_textures f infoPtrAddr texCount 0 ([], []) = Inr (log, textures)"
proof (cases "length f < 0x100")
  case True
  with assms have "log = [FileTooSmall]" and "textures = []"
    by (simp_all add: parseBNTX_def)
  with True show thesis
    by (intro fatal [of FileTooSmall]) (simp_all add: spec_fatal_def fatal_diags_def)
next
  case long: False
  then have magic: "memcmp_differs f 0 ''BNTX'' = Inr (take 4 f \<noteq> bytes_of ''BNTX'')"
    and nx: "memcmp_differs f 0x20 ''NX  '' = Inr (take 4 (drop 0x20 f) \<noteq> bytes_of ''NX  '')"
    by (simp_all add: memcmp_differs_Inr)
  show thesis
  proof (cases "take 4 f \<noteq> bytes_of ''BNTX''")
    case True
    with assms long magic have "log = [NotBNTX]" and "textures = []"
      by (simp_all add: parseBNTX_def bindf_Inr)
    with True show thesis
      by (intro fatal [of NotBNTX]) (simp_all add: spec_fatal_def fatal_diags_def)
  next
    case bntx: False
    show thesis
    proof (cases "f ! 0xc = 0xFF \<and> f ! 0xd = 0xFE")
      case False
      with assms long magic bntx have "log = [BigEndianNotSupported]" and "textures = []"
        by (simp_all add: parseBNTX_def bindf_Inr Let_def)
      with False show thesis
        by (intro fatal [of BigEndianNotSupported]) (auto simp: spec_fatal_def fatal_diags_def)
    next
      case le: True
      from assms long magic bntx le
      have rest: "bindf (Read32LE f 0x10) (\<lambda>fileNameAddr.
            bindf (Read32LE f 0x1C) (\<lambda>fileSize.
            bindf (ReadString f (unat fileNameAddr) 256) (\<lambda>fileName.
            bindf (memcmp_differs f 0x20 ''NX  '') (\<lambda>bad_nx.
            if bad_nx then Inr ([InvalidNXHeader], [])
            else
              bindf (Read32LE f (0x20 + 0x04)) (\<lambda>texCount.
              bindf (Read64LE_Signed f (0x20 + 0x08)) (\<lambda>infoPtrAddr.
              bindf (Read64LE_Signed f (0x20 + 0x10)) (\<lambda>dataBlkAddr.
              parse_textures f infoPtrAddr texCount 0 ([], []))))))))
          = Inr (log, textures)"
        by (simp add: parseBNTX_def bindf_Inr Let_def)
      then have body: "(if take 4 (drop 0x20 f) \<noteq> bytes_of ''NX  ''
            then Inr ([InvalidNXHeader], [])
            else
              bindf (Read32LE f (0x20 + 0x04)) (\<lambda>texCount.
              bindf (Read64LE_Signed f (0x20 + 0x08)) (\<lambda>infoPtrAddr.
              bindf (Read64LE_Signed f (0x20 + 0x10)) (\<lambda>dataBlkAddr.
              parse_textures f infoPtrAddr texCount 0 ([], [])))))
          = (Inr (log, textures) :: fault + (diag list \<times> BNTXTexture list))"
        unfolding bindf_eq_Inr nx by (elim exE conjE) simp
      show thesis
      proof (cases "take 4 (drop 0x20 f) \<noteq> bytes_of ''NX  ''")
        case True
        with body have "log = [InvalidNXHeader]" and "textures = []"
          by simp_all
        with True show thesis
          by (intro fatal [of InvalidNXHeader]) (simp_all add: spec_fatal_def fatal_diags_def)
      next
        case False
        with body obtain texCount infoPtrAddr
          where "parse_textures f infoPtrAddr texCount 0 ([], []) = Inr (log, textures)"
          by (simp only: if_False bindf_eq_Inr) blast
        moreover from long bntx le False have "\<not> spec_fatal f"
          by (simp add: spec_fatal_def)
        ultimately show thesis
          by (intro walked)
      qed
    qed
  qed
qed

lemma parse_textures_log:
  assumes "parse_textures f infoPtrAddr texCount 0 ([], []) = Inr (log, textures)"
    and "d \<in> set log"
  shows "d \<notin> fatal_diags"
proof -
  from parse_textures_result [OF assms(1)] assms(2)
  obtain k where "d \<in> set (skipped_at f infoPtrAddr (of_nat k))"
    by auto
  then have "parse_texture f infoPtrAddr (of_nat k) = Inr (Inl d)"
    by (auto simp: skipped_at_def split: sum.splits)
  then show ?thesis
    by (rule parse_texture_diag)
qed

lemma parse_textures_payload:
  assumes "parse_textures f infoPtrAddr texCount 0 ([], []) = Inr (log, textures)"
    and "tex \<in> set textures"
  shows "length (data tex) = unat (imageSize tex)"
proof -
  from parse_textures_result [OF assms(1)] assms(2)
  obtain k where "tex \<in> set (parsed_at f infoPtrAddr (of_nat k))"
    by auto
  then have "parse_texture f infoPtrAddr (of_nat k) = Inr (Inr tex)"
    by (auto simp: parsed_at_def split: sum.splits)
  then show ?thesis
    by (rule parse_texture_payload)
qed

text \<open>
  C5, as amended.  When \<open>parseBNTX\<close> returns, it has written one of the four fatal
  diagnostics exactly when the buffer is shorter than \<open>0x100\<close> bytes, or does not
  start with "BNTX", or has no \<open>FF FE\<close> at \<open>0xC\<close>, or has no "NX  " at \<open>0x20\<close>,
  and then it returns no texture.  Whenever it returns no texture, after a fatal
  failure or after a valid container without a parsed texture, \<open>main\<close> writes the
  same line "No textures found" and exits with status 1.
\<close>

theorem parse_failure_is_fatal:
  assumes "parseBNTX f = Inr (log, textures)"
  shows "((\<exists>d\<in>fatal_diags. d \<in> set log) \<longleftrightarrow> spec_fatal f)
    \<and> (spec_fatal f \<longrightarrow> textures = [])
    \<and> (textures = [] \<longrightarrow>
          main_convert can_create outputDir f = Inr (log @ [NoTexturesFound], 1, []))"
proof -
  have main: "main_convert can_create outputDir f = Inr (log @ [NoTexturesFound], 1, [])"
    if "textures = []"
    using assms that by (simp add: main_convert_def bindf_Inr)
  from assms show ?thesis
  proof (cases rule: parseBNTX_cases)
    case (fatal d)
    with main show ?thesis
      by auto
  next
    case (walked texCount infoPtrAddr)
    with parse_textures_log [OF walked(2)] main show ?thesis
      by auto
  qed
qed

theorem parse_failure_is_fatal_witness:
  "parseBNTX (bytes_of ''BNTX'' @ replicate 252 0) = Inr ([BigEndianNotSupported], [])
   \<and> spec_fatal (bytes_of ''BNTX'' @ replicate 252 0)
   \<and> main_convert (\<lambda>outName. True) ''out'' (bytes_of ''BNTX'' @ replicate 252 0)
       = Inr ([BigEndianNotSupported, NoTexturesFound], 1, [])"
proof -
  have run: "parseBNTX (bytes_of ''BNTX'' @ replicate 252 0) = Inr ([BigEndianNotSupported], [])"
    by code_simp
  from parse_failure_is_fatal [OF run, of "\<lambda>outName. True" "''out''"] run show ?thesis
    by (simp add: fatal_diags_def)
qed

text \<open>
  The empty buffer fails fatally; the sample file with no info pointer is a valid
  container without textures.  The parser returns the empty list for both, and
  \<open>main\<close> reports both with "No textures found" and exit status 1.
\<close>

theorem parse_failure_counterexample:
  "main_convert (\<lambda>outName. True) ''out'' [] = Inr ([FileTooSmall, NoTexturesFound], 1, [])
   \<and> main_convert (\<lambda>outName. True) ''out'' (sample_bntx [] 0 0 0 0)
       = Inr ([NoTexturesFound], 1, [])
   \<and> parseBNTX [] = Inr ([FileTooSmall], [])
   \<and> parseBNTX (sample_bntx [] 0 0 0 0) = Inr ([], [])
   \<and> spec_fatal []
   \<and> \<not> spec_fatal (sample_bntx [] 0 0 0 0)"
  by code_simp

text \<open>
  C6, as amended.  Every texture that \<open>parseBNTX\<close> returns has a payload of exactly
  \<open>imageSize\<close> bytes.
\<close>

theorem parsed_payload_length:
  assumes "parseBNTX f = Inr (log, textures)"
  shows "\<forall>tex\<in>set textures. length (data tex) = unat (imageSize tex)"
  using assms
proof (cases rule: parseBNTX_cases)
  case (fatal d)
  then show ?thesis
    by simp
next
  case (walked texCount infoPtrAddr)
  with parse_textures_payload [OF walked(2)] show ?thesis
    by blast
qed

theorem parsed_payload_length_witness:
  "parseBNTX (sample_bntx [0x50] 4 4 8 0xD8)
     = Inr ([], [\<lparr>name = [0x54], width = 4, height = 4, format = 0x1a01, tileMode = 1,
              sizeRange = 0, alignment = 512, imageSize = 8, data = [1, 2, 3, 4, 5, 6, 7, 8]\<rparr>])
   \<and> length (data \<lparr>name = [0x54], width = 4, height = 4, format = 0x1a01, tileMode = 1,
              sizeRange = 0, alignment = 512, imageSize = 8, data = [1, 2, 3, 4, 5, 6, 7, 8]\<rparr>)
       = unat (imageSize \<lparr>name = [0x54], width = 4, height = 4, format = 0x1a01, tileMode = 1,
              sizeRange = 0, alignment = 512, imageSize = 8, data = [1, 2, 3, 4, 5, 6, 7, 8]\<rparr>)"
proof -
  have run: "parseBNTX (sample_bntx [0x50] 4 4 8 0xD8)
     = Inr ([], [\<lparr>name = [0x54], width = 4, height = 4, format = 0x1a01, tileMode = 1,
              sizeRange = 0, alignment = 512, imageSize = 8, data = [1, 2, 3, 4, 5, 6, 7, 8]\<rparr>])"
    by code_simp
  from parsed_payload_length [OF run] run show ?thesis
    by simp
qed

text \<open>
  A record with width 0 and height 0 is parsed and appended like any other: the parser
  does not look at the width or the height.
\<close>

theorem parsed_texture_counterexample:
  "parseBNTX (sample_bntx [0x50] 0 0 8 0xD8)
     = Inr ([], [\<lparr>name = [0x54], width = 0, height = 0, format = 0x1a01, tileMode = 1,
              sizeRange = 0, alignment = 512, imageSize = 8, data = [1, 2, 3, 4, 5, 6, 7, 8]\<rparr>])
   \<and> \<not> 0 < width \<lparr>name = [0x54], width = 0, height = 0, format = 0x1a01, tileMode = 1,
              sizeRange = 0, alignment = 512, imageSize = 8, data = [1, 2, 3, 4, 5, 6, 7, 8]\<rparr>"
proof -
  have "parseBNTX (sample_bntx [0x50] 0 0 8 0xD8)
     = Inr ([], [\<lparr>name = [0x54], width = 0, height = 0, format = 0x1a01, tileMode = 1,
              sizeRange = 0, alignment = 512, imageSize = 8, data = [1, 2, 3, 4, 5, 6, 7, 8]\<rparr>])"
    by code_simp
  then show ?thesis
    by simp
qed

end
